theory Spec2Isabelle
  imports Complex_Main "HOL-Library.AList"
begin

section \<open>Python dictionaries\<close>

text \<open>
  A Python dict is an association list in insertion order. Assigning to a key that is
  already bound replaces the value where it stands, assigning to a new key appends the
  binding (\<open>AList.update\<close>); \<open>pop\<close> and \<open>del\<close> raise KeyError on a key that is not bound.
\<close>

datatype py_error = KeyError | IndexError | TypeError | FileNotFoundError | LoadError

type_synonym ('k, 'v) dict = "('k \<times> 'v) list"

definition keys :: "('k, 'v) dict \<Rightarrow> 'k list" where
  "keys d = map fst d"

definition dict_getitem :: "('k, 'v) dict \<Rightarrow> 'k \<Rightarrow> py_error + 'v" where
  "dict_getitem d k = (case map_of d k of None \<Rightarrow> Inl KeyError | Some v \<Rightarrow> Inr v)"

definition dict_setitem :: "'k \<Rightarrow> 'v \<Rightarrow> ('k, 'v) dict \<Rightarrow> ('k, 'v) dict" where
  "dict_setitem k v d = AList.update k v d"

definition dict_pop :: "'k \<Rightarrow> ('k, 'v) dict \<Rightarrow> py_error + ('v \<times> ('k, 'v) dict)" where
  "dict_pop k d =
     (case map_of d k of
        None \<Rightarrow> Inl KeyError
      | Some v \<Rightarrow> Inr (v, AList.delete k d))"

definition dict_delitem :: "'k \<Rightarrow> ('k, 'v) dict \<Rightarrow> py_error + ('k, 'v) dict" where
  "dict_delitem k d =
     (case map_of d k of
        None \<Rightarrow> Inl KeyError
      | Some v \<Rightarrow> Inr (AList.delete k d))"

section \<open>Checkpoint merge (examples/run\_volleyball\_classifier.py, lines 50--52)\<close>

text \<open>
  \<^verbatim>\<open>name_finetuned_layers = set(checkpoint.keys()).intersection(checkpoint_classifier.keys())\<close>
  is a Python set; the loop visits its elements once each, in an order the language does
  not fix. The loop is therefore modelled over an arbitrary enumeration \<open>ks\<close> of that set.
\<close>

definition name_finetuned_layers :: "('k, 'w) dict \<Rightarrow> ('k, 'w) dict \<Rightarrow> 'k set" where
  "name_finetuned_layers checkpoint checkpoint_classifier =
     set (keys checkpoint) \<inter> set (keys checkpoint_classifier)"

definition enumerates :: "'k list \<Rightarrow> 'k set \<Rightarrow> bool" where
  "enumerates ks S \<longleftrightarrow> distinct ks \<and> set ks = S"

fun merge_loop ::
  "'k list \<Rightarrow> ('k, 'w) dict \<Rightarrow> ('k, 'w) dict \<Rightarrow> py_error + (('k, 'w) dict \<times> ('k, 'w) dict)"
where
  "merge_loop [] checkpoint checkpoint_classifier = Inr (checkpoint, checkpoint_classifier)"
| "merge_loop (key # ks) checkpoint checkpoint_classifier =
     (case dict_pop key checkpoint_classifier of
        Inl e \<Rightarrow> Inl e
      | Inr (v, checkpoint_classifier') \<Rightarrow>
          merge_loop ks (dict_setitem key v checkpoint) checkpoint_classifier')"

text \<open>One executable enumeration: the common keys in the backbone's insertion order.\<close>

definition finetuned_order :: "('k, 'w) dict \<Rightarrow> ('k, 'w) dict \<Rightarrow> 'k list" where
  "finetuned_order checkpoint checkpoint_classifier =
     remdups (filter (\<lambda>k. k \<in> set (keys checkpoint_classifier)) (keys checkpoint))"

section \<open>Label map (examples/run\_volleyball\_classifier.py, lines 56--58)\<close>

text \<open>
  \<^verbatim>\<open>INT2LAB = {value: key for key, value in class2int.items()}\<close>: the comprehension
  visits the items of \<open>class2int\<close> in insertion order and assigns \<open>INT2LAB[value] = key\<close>
  for each, so a later item overwrites an earlier one with the same integer.
\<close>

definition INT2LAB :: "(string, int) dict \<Rightarrow> (int, string) dict" where
  "INT2LAB class2int = fold (\<lambda>(key, val) d. dict_setitem val key d) class2int []"

section \<open>Model assembly (examples/run\_volleyball\_classifier.py, lines 44--63)\<close>

text \<open>
  Modelled from the spec: the classes \<open>StridedInflatedEfficientNet\<close> and
  \<open>LogisticRegression\<close> of the \<open>sense\<close> package, which the script only constructs and
  loads. They are the two stages of the pipeline: a feature extractor holding the backbone
  weights and a classifier dimensioned by its input and output sizes holding the
  classifier weights. The feature dimension of the backbone is a parameter, and
  \<open>load_state_dict\<close> stores the weights it is given.
\<close>

record 'w efficientnet =
  feature_dim :: nat
  backbone_state :: "(string, 'w) dict"

record 'w logistic_regression =
  num_in :: nat
  num_out :: nat
  state_dict :: "(string, 'w) dict"

definition build_net ::
  "nat \<Rightarrow> string list \<Rightarrow> (string, 'w) dict \<Rightarrow> (string, 'w) dict \<Rightarrow> (string, int) dict
     \<Rightarrow> py_error + ('w efficientnet \<times> 'w logistic_regression)"
where
  "build_net fdim ks checkpoint checkpoint_classifier class2int =
     (case merge_loop ks checkpoint checkpoint_classifier of
        Inl e \<Rightarrow> Inl e
      | Inr (checkpoint', checkpoint_classifier') \<Rightarrow>
          (let feature_extractor = \<lparr>feature_dim = fdim, backbone_state = checkpoint'\<rparr>;
               gesture_classifier =
                 \<lparr>num_in = feature_dim feature_extractor,
                  num_out = length (INT2LAB class2int),
                  state_dict = checkpoint_classifier'\<rparr>
           in Inr (feature_extractor, gesture_classifier)))"

section \<open>TwoPositionsRepCounter\<close>

text \<open>
  Modelled from the spec: the class \<open>TwoPositionsRepCounter\<close> of
  \<open>sense.downstream_tasks.postprocess\<close>, which the script only constructs. The
  specification gives it two states and two transitions: from \<open>waiting_pos0\<close> to
  \<open>armed_pos0\<close> when \<open>probabilities[L0] \<ge> T0\<close>, and from \<open>armed_pos0\<close> back to
  \<open>waiting_pos0\<close>, incrementing the count, when \<open>probabilities[L1] \<ge> T1\<close>. A probability
  vector is a sequence indexed by label; reading past its end raises IndexError.
\<close>

datatype counter_tag = Waiting_pos0 | Armed_pos0

record rep_counter_state =
  tag :: counter_tag
  count :: nat

record counter_config =
  L0 :: nat
  L1 :: nat
  T0 :: real
  T1 :: real

definition initial_state :: rep_counter_state where
  "initial_state = \<lparr>tag = Waiting_pos0, count = 0\<rparr>"

definition prob_at :: "real list \<Rightarrow> nat \<Rightarrow> py_error + real" where
  "prob_at probabilities i =
     (if i < length probabilities then Inr (probabilities ! i) else Inl IndexError)"

definition two_positions_apply ::
  "counter_config \<Rightarrow> rep_counter_state \<Rightarrow> real list \<Rightarrow> py_error + rep_counter_state"
where
  "two_positions_apply cfg st probabilities =
     (case tag st of
        Waiting_pos0 \<Rightarrow>
          (case prob_at probabilities (L0 cfg) of
             Inl e \<Rightarrow> Inl e
           | Inr p \<Rightarrow> Inr (if p \<ge> T0 cfg then st\<lparr>tag := Armed_pos0\<rparr> else st))
      | Armed_pos0 \<Rightarrow>
          (case prob_at probabilities (L1 cfg) of
             Inl e \<Rightarrow> Inl e
           | Inr p \<Rightarrow>
               Inr (if p \<ge> T1 cfg then st\<lparr>tag := Waiting_pos0, count := count st + 1\<rparr>
                    else st)))"

fun feed ::
  "counter_config \<Rightarrow> rep_counter_state \<Rightarrow> real list list \<Rightarrow> py_error + rep_counter_state"
where
  "feed cfg st [] = Inr st"
| "feed cfg st (probabilities # rest) =
     (case two_positions_apply cfg st probabilities of
        Inl e \<Rightarrow> Inl e
      | Inr st' \<Rightarrow> feed cfg st' rest)"

text \<open>
  What a frame shows at the two tracked labels: the probability at \<open>L0\<close> (at \<open>L1\<close>) is
  at or above its threshold, or strictly below it.
\<close>

definition crosses0 :: "counter_config \<Rightarrow> real list \<Rightarrow> bool" where
  "crosses0 cfg p \<longleftrightarrow> L0 cfg < length p \<and> p ! L0 cfg \<ge> T0 cfg"

definition below0 :: "counter_config \<Rightarrow> real list \<Rightarrow> bool" where
  "below0 cfg p \<longleftrightarrow> L0 cfg < length p \<and> p ! L0 cfg < T0 cfg"

definition crosses1 :: "counter_config \<Rightarrow> real list \<Rightarrow> bool" where
  "crosses1 cfg p \<longleftrightarrow> L1 cfg < length p \<and> p ! L1 cfg \<ge> T1 cfg"

definition below1 :: "counter_config \<Rightarrow> real list \<Rightarrow> bool" where
  "below1 cfg p \<longleftrightarrow> L1 cfg < length p \<and> p ! L1 cfg < T1 cfg"

section \<open>The script (examples/run\_volleyball\_classifier.py, lines 33--154)\<close>

text \<open>
  Python values as far as the script's argument handling needs them. An object is its
  class name with the positional and the keyword arguments of its constructor call; the
  weights a network is loaded with afterwards are state, not arguments, and are not part
  of this view. \<open>a or b\<close> is \<open>a\<close> when \<open>a\<close> is truthy and \<open>b\<close> otherwise.
\<close>

datatype pyval =
    PyNone
  | PyBool bool
  | PyInt int
  | PyFloat real
  | PyStr string
  | PyList "pyval list"
  | PyDict "(pyval \<times> pyval) list"
  | PyObject string "pyval list" "(string \<times> pyval) list"

fun truthy :: "pyval \<Rightarrow> bool" where
  "truthy PyNone = False"
| "truthy (PyBool b) = b"
| "truthy (PyInt i) = (i \<noteq> 0)"
| "truthy (PyFloat x) = (x \<noteq> 0)"
| "truthy (PyStr s) = (s \<noteq> [])"
| "truthy (PyList xs) = (xs \<noteq> [])"
| "truthy (PyDict d) = (d \<noteq> [])"
| "truthy (PyObject c xs kw) = True"

definition py_or :: "pyval \<Rightarrow> pyval \<Rightarrow> pyval" where
  "py_or a b = (if truthy a then a else b)"

definition bind_err :: "'e + 'a \<Rightarrow> ('a \<Rightarrow> 'e + 'b) \<Rightarrow> 'e + 'b" where
  "bind_err r f = (case r of Inl e \<Rightarrow> Inl e | Inr x \<Rightarrow> f x)"

definition kwarg :: "pyval \<Rightarrow> string \<Rightarrow> pyval option" where
  "kwarg obj name = (case obj of PyObject c xs kw \<Rightarrow> map_of kw name | _ \<Rightarrow> None)"

definition kwarg_names :: "pyval \<Rightarrow> string list" where
  "kwarg_names obj = (case obj of PyObject c xs kw \<Rightarrow> map fst kw | _ \<Rightarrow> [])"

text \<open>
  The usage text declares no default for any option, so \<open>docopt\<close> (an external library)
  binds an option that is absent from the command line to \<open>None\<close>, an option given as
  \<open>--opt=TEXT\<close> to the string \<open>TEXT\<close>, and the flag \<open>--use_gpu\<close> to a boolean.
\<close>

record command_line =
  given_custom_classifier :: string
  given_camera_id :: "string option"
  given_path_in :: "string option"
  given_path_out :: "string option"
  given_title :: "string option"
  given_use_gpu :: bool

definition option_value :: "string option \<Rightarrow> pyval" where
  "option_value x = (case x of None \<Rightarrow> PyNone | Some s \<Rightarrow> PyStr s)"

definition docopt :: "command_line \<Rightarrow> (string, pyval) dict" where
  "docopt cl =
     [(''--custom_classifier'', PyStr (given_custom_classifier cl)),
      (''--camera_id'', option_value (given_camera_id cl)),
      (''--path_in'', option_value (given_path_in cl)),
      (''--path_out'', option_value (given_path_out cl)),
      (''--title'', option_value (given_title cl)),
      (''--use_gpu'', PyBool (given_use_gpu cl)),
      (''-h'', PyBool False),
      (''--help'', PyBool False)]"

text \<open>Lines 35--41: the local variables that the options are read into.\<close>

record cli_values =
  camera_id :: pyval
  path_in :: pyval
  path_out :: pyval
  custom_classifier :: pyval
  title :: pyval
  use_gpu :: pyval

definition parse_arguments :: "(string, pyval) dict \<Rightarrow> py_error + cli_values" where
  "parse_arguments args =
     bind_err (dict_getitem args ''--camera_id'') (\<lambda>arg_camera_id.
     bind_err (dict_getitem args ''--path_in'') (\<lambda>arg_path_in.
     bind_err (dict_getitem args ''--path_out'') (\<lambda>arg_path_out.
     bind_err (dict_getitem args ''--custom_classifier'') (\<lambda>arg_custom_classifier.
     bind_err (dict_getitem args ''--title'') (\<lambda>arg_title.
     bind_err (dict_getitem args ''--use_gpu'') (\<lambda>arg_use_gpu.
       Inr \<lparr>camera_id = py_or arg_camera_id (PyInt 0),
            path_in = py_or arg_path_in PyNone,
            path_out = py_or arg_path_out PyNone,
            custom_classifier = py_or arg_custom_classifier PyNone,
            title = py_or arg_title PyNone,
            use_gpu = arg_use_gpu\<rparr>))))))"

text \<open>
  \<open>os.path.join\<close> (POSIX) with a relative second component; it raises TypeError when
  the first component is not a string, as for \<open>None\<close>.
\<close>

definition os_path_join :: "pyval \<Rightarrow> string \<Rightarrow> py_error + string" where
  "os_path_join a b =
     (case a of
        PyStr s \<Rightarrow>
          Inr (if s = [] then b else if last s = CHR ''/'' then s @ b else s @ ''/'' @ b)
      | _ \<Rightarrow> Inl TypeError)"

text \<open>
  Modelled from the spec: \<open>engine.load_weights\<close> and the files the script reads, which
  are not part of the two files at hand. A checkpoint file is an opaque serialized weight
  map, the label metadata file a JSON object from label strings to integers; loading
  fails (the spec's LoadError) for a file that is missing, unreadable or inconsistent
  with the target architecture, and opening a missing label file raises. The environment
  lists the files that load, with their content, and the feature dimension of the
  backbone.
\<close>

record 'w environment =
  weight_files :: "(string, (string, 'w) dict) dict"
  label_files :: "(string, (string, int) dict) dict"
  backbone_feature_dim :: nat

definition load_weights :: "'w environment \<Rightarrow> string \<Rightarrow> py_error + (string, 'w) dict" where
  "load_weights env path =
     (case map_of (weight_files env) path of None \<Rightarrow> Inl LoadError | Some w \<Rightarrow> Inr w)"

definition load_labels :: "'w environment \<Rightarrow> string \<Rightarrow> py_error + (string, int) dict" where
  "load_labels env path =
     (case map_of (label_files env) path of
        None \<Rightarrow> Inl FileNotFoundError
      | Some class2int \<Rightarrow> Inr class2int)"

text \<open>
  Modelled from the spec: the constructor of \<open>TwoPositionsRepCounter\<close>. Its
  configuration holds the label indices of the two positions, so the constructor looks
  both position labels up in the mapping, and a label the mapping does not have is a
  configuration error that fails at assembly time.
\<close>

definition py_class2int :: "(string, int) dict \<Rightarrow> pyval" where
  "py_class2int d = PyDict (map (\<lambda>(key, val). (PyStr key, PyInt val)) d)"

definition py_int2lab :: "(int, string) dict \<Rightarrow> pyval" where
  "py_int2lab d = PyDict (map (\<lambda>(key, val). (PyInt key, PyStr val)) d)"

definition TwoPositionsRepCounter ::
  "(string, int) dict \<Rightarrow> string \<Rightarrow> string \<Rightarrow> real \<Rightarrow> real \<Rightarrow> string \<Rightarrow> py_error + pyval"
where
  "TwoPositionsRepCounter mapping position0 position1 threshold0 threshold1 out_key =
     bind_err (dict_getitem mapping position0) (\<lambda>label0.
     bind_err (dict_getitem mapping position1) (\<lambda>label1.
       Inr (PyObject ''TwoPositionsRepCounter'' []
              [(''mapping'', py_class2int mapping),
               (''position0'', PyStr position0),
               (''position1'', PyStr position1),
               (''threshold0'', PyFloat threshold0),
               (''threshold1'', PyFloat threshold1),
               (''out_key'', PyStr out_key)])))"

text \<open>Lines 68--126: the list of post-processors, built in the order written.\<close>

definition postprocessor :: "(string, int) dict \<Rightarrow> py_error + pyval" where
  "postprocessor class2int =
     bind_err (TwoPositionsRepCounter class2int
                 ''forearm_passing_position_1'' ''forearm_passing_position_2''
                 0.1 0.05 ''forearm passes'') (\<lambda>forearm_passes.
     bind_err (TwoPositionsRepCounter class2int
                 ''overhead_passing_position_1'' ''overhead_passing_position_2''
                 0.18 0.18 ''overhead passes'') (\<lambda>overhead_passes.
     bind_err (TwoPositionsRepCounter class2int
                 ''pokey_position_1'' ''pokey_position_2''
                 0.1 0.1 ''pokeys'') (\<lambda>pokeys.
     bind_err (TwoPositionsRepCounter class2int
                 ''one_arm_passing_position_1'' ''one_arm_passing_position_2''
                 0.2 0.2 ''one arm passes'') (\<lambda>one_arm_passes.
     bind_err (TwoPositionsRepCounter class2int
                 ''bouncing_ball_position_1'' ''bouncing_ball_position_2''
                 0.1 0.1 ''bounces'') (\<lambda>bounces.
       Inr (PyList
              [PyObject ''PostprocessClassificationOutput''
                 [py_int2lab (INT2LAB class2int)] [(''smoothing'', PyInt 4)],
               forearm_passes, overhead_passes, pokeys, one_arm_passes, bounces]))))))"

text \<open>Lines 128--139.\<close>

definition display_ops :: pyval where
  "display_ops =
     PyList
       [PyObject ''DisplayTopKClassificationOutputs'' []
          [(''top_k'', PyInt 3), (''threshold'', PyInt 0)],
        PyObject ''DisplayRepCounts2'' []
          [(''keys'', PyList [PyStr ''forearm passes'', PyStr ''overhead passes'',
                              PyStr ''pokeys'', PyStr ''one arm passes'', PyStr ''bounces'']),
           (''y_offset'', PyInt 120)]]"

text \<open>
  The script from the parsed arguments to the Controller call, in the order of its
  statements, so that the first statement that raises decides the outcome: the backbone
  checkpoint is loaded (line 45), the classifier checkpoint is loaded from the classifier
  directory (line 48, where \<open>os.path.join\<close> raises on \<open>None\<close>), the checkpoints are merged
  (lines 50--52, here in the order \<open>finetuned_order\<close>), the label file is read (lines
  56--58), the networks, the post-processors and the display are constructed, and the
  Controller is constructed from them (lines 144--153). The result is the Controller
  object, on which the script then calls \<open>run_inference\<close>.
\<close>

definition main :: "'w environment \<Rightarrow> (string, pyval) dict \<Rightarrow> py_error + pyval" where
  "main env args =
     bind_err (parse_arguments args) (\<lambda>v.
     bind_err (load_weights env ''resources/backbone/strided_inflated_efficientnet.ckpt'')
       (\<lambda>checkpoint.
     bind_err (os_path_join (custom_classifier v) ''classifier.checkpoint'') (\<lambda>classifier_path.
     bind_err (load_weights env classifier_path) (\<lambda>checkpoint_classifier.
     bind_err (merge_loop (finetuned_order checkpoint checkpoint_classifier)
                 checkpoint checkpoint_classifier) (\<lambda>merged.
     bind_err (os_path_join (custom_classifier v) ''label2int.json'') (\<lambda>label_path.
     bind_err (load_labels env label_path) (\<lambda>class2int.
       (let feature_extractor = PyObject ''StridedInflatedEfficientNet'' [] [];
            gesture_classifier =
              PyObject ''LogisticRegression'' []
                [(''num_in'', PyInt (int (backbone_feature_dim env))),
                 (''num_out'', PyInt (int (length (INT2LAB class2int))))];
            net = PyObject ''Pipe'' [feature_extractor, gesture_classifier] []
        in bind_err (postprocessor class2int) (\<lambda>post_processors.
             (let display_results =
                    PyObject ''DisplayResults'' []
                      [(''title'', title v),
                       (''display_ops'', display_ops),
                       (''border_size'', PyInt 100)]
              in Inr (PyObject ''Controller'' []
                   [(''neural_network'', net),
                    (''post_processors'', post_processors),
                    (''results_display'', display_results),
                    (''callbacks'', PyList []),
                    (''camera_id'', camera_id v),
                    (''path_in'', path_in v),
                    (''path_out'', path_out v),
                    (''use_gpu'', use_gpu v)])))))))))))"

text \<open>Observations on the outcome of a run: an argument of the Controller call it ends in.\<close>

definition controller_kwarg :: "py_error + pyval \<Rightarrow> string \<Rightarrow> py_error + pyval option" where
  "controller_kwarg outcome name = bind_err outcome (\<lambda>ctl. Inr (kwarg ctl name))"

definition controller_kwarg_names :: "py_error + pyval \<Rightarrow> py_error + string list" where
  "controller_kwarg_names outcome = bind_err outcome (\<lambda>ctl. Inr (kwarg_names ctl))"

section \<open>Project tags (tools/sense\_studio/project\_tags.py)\<close>

text \<open>
  The project configuration document: tag names by tag id, the highest id allocated so
  far, and for every class label its tags, stored as a JSON array and handled with
  \<open>in\<close> and \<open>remove\<close> (which deletes the first occurrence).
\<close>

record config =
  project_tags :: "(int, string) dict"
  max_tag_index :: int
  classes :: "(string, int list) dict"

text \<open>
  Modelled from the spec: \<open>project_utils.load_project_config\<close> and
  \<open>project_utils.write_project_config\<close>, which are not part of the two files at hand.
  The collaborator persists one configuration document per project path; loading reads
  the document stored at the path (a fresh copy), writing replaces it.
\<close>

type_synonym store = "string \<rightharpoonup> config"

definition load_project_config :: "store \<Rightarrow> string \<Rightarrow> py_error + config" where
  "load_project_config st path =
     (case st path of None \<Rightarrow> Inl FileNotFoundError | Some config \<Rightarrow> Inr config)"

definition write_project_config :: "string \<Rightarrow> config \<Rightarrow> store \<Rightarrow> store" where
  "write_project_config path config st = st(path \<mapsto> config)"

text \<open>
  Each handler loads the configuration, changes it in memory and writes it back. The
  in-memory part is a function of its own; the one of \<open>create_tag\<close> also returns the
  local \<open>new_tag_index\<close>. An exception raised before \<open>write_project_config\<close> leaves the
  store as it was.
\<close>

definition create_tag_body :: "config \<Rightarrow> string \<Rightarrow> int \<times> config" where
  "create_tag_body config tag_name =
     (let new_tag_index = max_tag_index config + 1;
          project_tags' = dict_setitem new_tag_index tag_name (project_tags config)
      in (new_tag_index,
          config\<lparr>project_tags := project_tags', max_tag_index := new_tag_index\<rparr>))"

definition create_tag :: "string \<Rightarrow> string \<Rightarrow> store \<Rightarrow> (py_error + unit) \<times> store" where
  "create_tag path tag_name st =
     (case load_project_config st path of
        Inl e \<Rightarrow> (Inl e, st)
      | Inr config \<Rightarrow>
          (Inr (), write_project_config path (snd (create_tag_body config tag_name)) st))"

definition remove_from_classes :: "int \<Rightarrow> (string, int list) dict \<Rightarrow> (string, int list) dict" where
  "remove_from_classes tag_idx cls =
     map (\<lambda>(class_label, tags).
            (class_label, if tag_idx \<in> set tags then remove1 tag_idx tags else tags)) cls"

definition remove_tag_body :: "config \<Rightarrow> int \<Rightarrow> py_error + config" where
  "remove_tag_body config tag_idx =
     (case dict_delitem tag_idx (project_tags config) of
        Inl e \<Rightarrow> Inl e
      | Inr project_tags' \<Rightarrow>
          Inr (config\<lparr>project_tags := project_tags',
                      classes := remove_from_classes tag_idx (classes config)\<rparr>))"

definition remove_tag :: "string \<Rightarrow> int \<Rightarrow> store \<Rightarrow> (py_error + unit) \<times> store" where
  "remove_tag path tag_idx st =
     (case load_project_config st path of
        Inl e \<Rightarrow> (Inl e, st)
      | Inr config \<Rightarrow>
          (case remove_tag_body config tag_idx of
             Inl e \<Rightarrow> (Inl e, st)
           | Inr config' \<Rightarrow> (Inr (), write_project_config path config' st)))"

definition edit_tag_body :: "config \<Rightarrow> int \<Rightarrow> string \<Rightarrow> config" where
  "edit_tag_body config tag_idx new_tag_name =
     config\<lparr>project_tags := dict_setitem tag_idx new_tag_name (project_tags config)\<rparr>"

definition edit_tag :: "string \<Rightarrow> int \<Rightarrow> string \<Rightarrow> store \<Rightarrow> (py_error + unit) \<times> store" where
  "edit_tag path tag_idx new_tag_name st =
     (case load_project_config st path of
        Inl e \<Rightarrow> (Inl e, st)
      | Inr config \<Rightarrow>
          (Inr (), write_project_config path (edit_tag_body config tag_idx new_tag_name) st))"

text \<open>
  A run of the tool is a sequence of requests to the three routes for one project; a
  request that raises does not stop the server. \<open>allocated_ids\<close> lists the ids that the
  \<open>create_tag\<close> requests of a run allocate, in order.
\<close>

datatype request = CreateTag string | RemoveTag int | EditTag int string

fun handle :: "string \<Rightarrow> request \<Rightarrow> store \<Rightarrow> (py_error + unit) \<times> store" where
  "handle path (CreateTag tag_name) st = create_tag path tag_name st"
| "handle path (RemoveTag tag_idx) st = remove_tag path tag_idx st"
| "handle path (EditTag tag_idx new_tag_name) st = edit_tag path tag_idx new_tag_name st"

fun serve :: "string \<Rightarrow> request list \<Rightarrow> store \<Rightarrow> store" where
  "serve path [] st = st"
| "serve path (r # rs) st = serve path rs (snd (handle path r st))"

fun allocated :: "string \<Rightarrow> request \<Rightarrow> store \<Rightarrow> int list" where
  "allocated path (CreateTag tag_name) st =
     (case load_project_config st path of
        Inl e \<Rightarrow> []
      | Inr config \<Rightarrow> [fst (create_tag_body config tag_name)])"
| "allocated path (RemoveTag tag_idx) st = []"
| "allocated path (EditTag tag_idx new_tag_name) st = []"

fun allocated_ids :: "string \<Rightarrow> request list \<Rightarrow> store \<Rightarrow> int list" where
  "allocated_ids path [] st = []"
| "allocated_ids path (r # rs) st =
     allocated path r st @ allocated_ids path rs (snd (handle path r st))"

text \<open>
  The tag ids of a configuration are bounded when none exceeds \<open>max_tag_index\<close>, as in
  a configuration whose tags all come from \<open>create_tag\<close>. \<open>editing\<close> singles out the
  requests to the edit route.
\<close>

definition tags_bounded :: "config \<Rightarrow> bool" where
  "tags_bounded config \<longleftrightarrow> list_all (\<lambda>i. i \<le> max_tag_index config) (keys (project_tags config))"

fun editing :: "request \<Rightarrow> bool" where
  "editing (EditTag tag_idx new_tag_name) = True"
| "editing r = False"

section \<open>Properties of the merge loop\<close>

lemma finetuned_order_enumerates:
  "enumerates (finetuned_order b c) (name_finetuned_layers b c)"
  by (auto simp: enumerates_def finetuned_order_def name_finetuned_layers_def)

lemma map_of_eq_None_keys: "map_of d k = None \<longleftrightarrow> k \<notin> set (keys d)"
  by (simp add: keys_def map_of_eq_None_iff)

lemma keys_dict_setitem_present:
  "k \<in> set (keys d) \<Longrightarrow> keys (dict_setitem k v d) = keys d"
  by (simp add: keys_def dict_setitem_def update_keys)

lemma keys_delete: "set (keys (AList.delete k d)) = set (keys d) - {k}"
  by (simp add: keys_def delete_keys)

text \<open>
  The loop invariant in one statement: when the keys visited are distinct and all bound
  in both maps, the loop does not raise, the backbone keeps its key list, and both maps
  are described pointwise.
\<close>

lemma merge_loop_result:
  assumes "distinct ks" and "set ks \<subseteq> set (keys b)" and "set ks \<subseteq> set (keys c)"
  shows "\<exists>b' c'. merge_loop ks b c = Inr (b', c')
           \<and> keys b' = keys b
           \<and> (\<forall>k. map_of b' k = (if k \<in> set ks then map_of c k else map_of b k))
           \<and> (\<forall>k. map_of c' k = (if k \<in> set ks then None else map_of c k))
           \<and> c' = filter (\<lambda>kv. fst kv \<notin> set ks) c"
  using assms
proof (induction ks arbitrary: b c)
  case Nil
  then show ?case by simp
next
  case (Cons key ks)
  have "map_of c key \<noteq> None"
    using Cons.prems by (simp add: map_of_eq_None_keys)
  then obtain v where v: "map_of c key = Some v"
    by blast
  let ?b = "dict_setitem key v b" and ?c = "AList.delete key c"
  have kb: "keys ?b = keys b"
    using Cons.prems by (simp add: keys_dict_setitem_present)
  have "distinct ks" "set ks \<subseteq> set (keys ?b)" "set ks \<subseteq> set (keys ?c)"
    using Cons.prems kb by (auto simp: keys_delete)
  from Cons.IH [OF this] obtain b' c' where
    run: "merge_loop ks ?b ?c = Inr (b', c')" and
    kb': "keys b' = keys ?b" and
    mb: "\<forall>k. map_of b' k = (if k \<in> set ks then map_of ?c k else map_of ?b k)" and
    mc: "\<forall>k. map_of c' k = (if k \<in> set ks then None else map_of ?c k)" and
    fc: "c' = filter (\<lambda>kv. fst kv \<notin> set ks) ?c"
    by blast
  have step: "merge_loop (key # ks) b c = Inr (b', c')"
    using v run by (simp add: dict_pop_def)
  have notin: "key \<notin> set ks"
    using Cons.prems by simp
  have mb': "\<forall>k. map_of b' k = (if k \<in> set (key # ks) then map_of c k else map_of b k)"
    using mb notin v by (auto simp: dict_setitem_def update_conv' delete_conv')
  have mc': "\<forall>k. map_of c' k = (if k \<in> set (key # ks) then None else map_of c k)"
    using mc by (auto simp: delete_conv')
  have fc': "c' = filter (\<lambda>kv. fst kv \<notin> set (key # ks)) c"
    using fc by (auto simp: AList.delete_eq intro: filter_cong)
  from step kb kb' mb' mc' fc' show ?case
    by simp
qed

section \<open>Claims about the checkpoint merge\<close>

text \<open>
  C1. For every key common to the backbone weight map and the classifier weight map, the
  merge loop (which never raises) leaves the backbone binding that key to the value the
  classifier map held for it, and the key is no longer bound in the classifier map. On the
  example of the specification, backbone \<open>{layer1: w1, layer2: w2}\<close> and classifier
  \<open>{layer2: w2f, head: wh}\<close> become \<open>{layer1: w1, layer2: w2f}\<close> and \<open>{head: wh}\<close>.
\<close>

theorem merge_moves_common_keys:
  "(enumerates ks (name_finetuned_layers b c) \<longrightarrow>
      (\<exists>b' c'. merge_loop ks b c = Inr (b', c')
         \<and> (\<forall>k \<in> name_finetuned_layers b c.
               dict_getitem b' k = dict_getitem c k \<and> k \<notin> set (keys c'))))
   \<and> merge_loop (finetuned_order [(''layer1'', w1), (''layer2'', w2)]
                                   [(''layer2'', w2f), (''head'', wh)])
        [(''layer1'', w1), (''layer2'', w2)] [(''layer2'', w2f), (''head'', wh)]
      = Inr ([(''layer1'', w1), (''layer2'', w2f)], [(''head'', wh)])"
proof (intro conjI impI)
  assume e: "enumerates ks (name_finetuned_layers b c)"
  then have "distinct ks" "set ks \<subseteq> set (keys b)" "set ks \<subseteq> set (keys c)"
    by (auto simp: enumerates_def name_finetuned_layers_def)
  from merge_loop_result [OF this] obtain b' c' where
    run: "merge_loop ks b c = Inr (b', c')" and
    mb: "\<forall>k. map_of b' k = (if k \<in> set ks then map_of c k else map_of b k)" and
    mc: "\<forall>k. map_of c' k = (if k \<in> set ks then None else map_of c k)"
    by blast
  have "\<forall>k \<in> name_finetuned_layers b c.
          dict_getitem b' k = dict_getitem c k \<and> k \<notin> set (keys c')"
    using e mb mc
    by (simp add: enumerates_def dict_getitem_def map_of_eq_None_keys [symmetric])
  with run show "\<exists>b' c'. merge_loop ks b c = Inr (b', c')
         \<and> (\<forall>k \<in> name_finetuned_layers b c.
               dict_getitem b' k = dict_getitem c k \<and> k \<notin> set (keys c'))"
    by blast
next
  show "merge_loop (finetuned_order [(''layer1'', w1), (''layer2'', w2)]
                                   [(''layer2'', w2f), (''head'', wh)])
        [(''layer1'', w1), (''layer2'', w2)] [(''layer2'', w2f), (''head'', wh)]
      = Inr ([(''layer1'', w1), (''layer2'', w2f)], [(''head'', wh)])"
    by (simp add: finetuned_order_def keys_def dict_pop_def dict_setitem_def)
qed

theorem merge_moves_common_keys_witness:
  "enumerates [''layer2''] (name_finetuned_layers
       [(''layer1'', 1::int), (''layer2'', 2)] [(''layer2'', 20), (''head'', 30)])
   \<and> (\<exists>b' c'. merge_loop [''layer2'']
          [(''layer1'', 1::int), (''layer2'', 2)] [(''layer2'', 20), (''head'', 30)]
          = Inr (b', c')
        \<and> dict_getitem b' ''layer2'' = Inr 20 \<and> ''layer2'' \<notin> set (keys c'))"
proof -
  have e: "enumerates [''layer2''] (name_finetuned_layers
       [(''layer1'', 1::int), (''layer2'', 2)] [(''layer2'', 20), (''head'', 30)])"
    by (auto simp: enumerates_def name_finetuned_layers_def keys_def)
  have m: "''layer2'' \<in> name_finetuned_layers
       [(''layer1'', 1::int), (''layer2'', 2)] [(''layer2'', 20), (''head'', 30)]"
    by (simp add: name_finetuned_layers_def keys_def)
  have g: "dict_getitem [(''layer2'', 20::int), (''head'', 30)] ''layer2'' = Inr 20"
    by (simp add: dict_getitem_def)
  from merge_moves_common_keys [of "[''layer2'']"
      "[(''layer1'', 1::int), (''layer2'', 2)]" "[(''layer2'', 20), (''head'', 30)]",
      THEN conjunct1, rule_format, OF e]
  obtain b' c' where
    "merge_loop [''layer2'']
          [(''layer1'', 1::int), (''layer2'', 2)] [(''layer2'', 20), (''head'', 30)]
          = Inr (b', c')"
    "\<forall>k \<in> name_finetuned_layers
       [(''layer1'', 1::int), (''layer2'', 2)] [(''layer2'', 20), (''head'', 30)].
       dict_getitem b' k = dict_getitem [(''layer2'', 20), (''head'', 30)] k
         \<and> k \<notin> set (keys c')"
    by blast
  with m g e show ?thesis by auto
qed

text \<open>
  C2. Frame property of the merge: the backbone keeps every key it had (its key list is
  unchanged), a backbone key outside the intersection keeps its value, and a classifier
  key outside the intersection keeps its value in the classifier map.
\<close>

theorem merge_frame:
  assumes "enumerates ks (name_finetuned_layers b c)"
  shows "\<exists>b' c'. merge_loop ks b c = Inr (b', c')
           \<and> keys b' = keys b
           \<and> (\<forall>k \<in> set (keys b). k \<in> set (keys b'))
           \<and> (\<forall>k. k \<notin> name_finetuned_layers b c \<longrightarrow> dict_getitem b' k = dict_getitem b k)
           \<and> (\<forall>k. k \<notin> name_finetuned_layers b c \<longrightarrow> dict_getitem c' k = dict_getitem c k)"
proof -
  from assms have ks: "distinct ks" "set ks \<subseteq> set (keys b)" "set ks \<subseteq> set (keys c)"
    and eq: "set ks = name_finetuned_layers b c"
    by (auto simp: enumerates_def name_finetuned_layers_def)
  from merge_loop_result [OF ks] obtain b' c' where
    run: "merge_loop ks b c = Inr (b', c')" and
    kb: "keys b' = keys b" and
    mb: "\<forall>k. map_of b' k = (if k \<in> set ks then map_of c k else map_of b k)" and
    mc: "\<forall>k. map_of c' k = (if k \<in> set ks then None else map_of c k)"
    by blast
  have fb: "\<forall>k. k \<notin> name_finetuned_layers b c \<longrightarrow> dict_getitem b' k = dict_getitem b k"
    using mb eq by (simp add: dict_getitem_def)
  have fc: "\<forall>k. k \<notin> name_finetuned_layers b c \<longrightarrow> dict_getitem c' k = dict_getitem c k"
    using mc eq by (simp add: dict_getitem_def)
  from run kb fb fc show ?thesis
    by simp
qed

theorem merge_frame_witness:
  "enumerates [''layer2''] (name_finetuned_layers
       [(''layer1'', 1::int), (''layer2'', 2)] [(''layer2'', 20), (''head'', 30)])
   \<and> (\<exists>b' c'. merge_loop [''layer2'']
          [(''layer1'', 1::int), (''layer2'', 2)] [(''layer2'', 20), (''head'', 30)]
          = Inr (b', c')
        \<and> keys b' = [''layer1'', ''layer2'']
        \<and> dict_getitem b' ''layer1'' = Inr 1 \<and> dict_getitem c' ''head'' = Inr 30)"
proof -
  let ?b = "[(''layer1'', 1::int), (''layer2'', 2)]"
  let ?c = "[(''layer2'', 20::int), (''head'', 30)]"
  have e: "enumerates [''layer2''] (name_finetuned_layers ?b ?c)"
    by (auto simp: enumerates_def name_finetuned_layers_def keys_def)
  have n: "''layer1'' \<notin> name_finetuned_layers ?b ?c" "''head'' \<notin> name_finetuned_layers ?b ?c"
    by (simp_all add: name_finetuned_layers_def keys_def)
  have g: "dict_getitem ?b ''layer1'' = Inr 1" "dict_getitem ?c ''head'' = Inr 30"
    "keys ?b = [''layer1'', ''layer2'']"
    by (simp_all add: dict_getitem_def keys_def)
  from merge_frame [OF e] obtain b' c' where
    "merge_loop [''layer2''] ?b ?c = Inr (b', c')" "keys b' = keys ?b"
    "\<forall>k. k \<notin> name_finetuned_layers ?b ?c \<longrightarrow> dict_getitem b' k = dict_getitem ?b k"
    "\<forall>k. k \<notin> name_finetuned_layers ?b ?c \<longrightarrow> dict_getitem c' k = dict_getitem ?c k"
    by blast
  with n g e show ?thesis by auto
qed

section \<open>Properties of the label map\<close>

lemma INT2LAB_snoc: "INT2LAB (xs @ [(key, val)]) = AList.update val key (INT2LAB xs)"
  by (simp add: INT2LAB_def dict_setitem_def)

lemma set_update_cases:
  "p \<in> set (AList.update k v al) \<Longrightarrow> p = (k, v) \<or> p \<in> set al"
  by (induction al) (auto split: if_splits)

lemma INT2LAB_sound: "(i, s) \<in> set (INT2LAB xs) \<Longrightarrow> (s, i) \<in> set xs"
proof (induction xs arbitrary: i s rule: rev_induct)
  case Nil
  then show ?case by (simp add: INT2LAB_def)
next
  case (snoc x xs)
  obtain key val where x: "x = (key, val)" by (cases x)
  from snoc.prems have "(i, s) = (val, key) \<or> (i, s) \<in> set (INT2LAB xs)"
    unfolding x INT2LAB_snoc by (rule set_update_cases)
  then show ?case
    using snoc.IH x by auto
qed

lemma INT2LAB_complete:
  "distinct (map snd xs) \<Longrightarrow> (s, i) \<in> set xs \<Longrightarrow> map_of (INT2LAB xs) i = Some s"
proof (induction xs rule: rev_induct)
  case Nil
  then show ?case by simp
next
  case (snoc x xs)
  obtain key val where x: "x = (key, val)" by (cases x)
  from snoc.prems have d: "distinct (map snd xs)" and fresh: "val \<notin> snd ` set xs"
    by (simp_all add: x)
  show ?case
  proof (cases "(s, i) = (key, val)")
    case True
    then show ?thesis by (simp add: x INT2LAB_snoc update_conv')
  next
    case False
    with snoc.prems have mem: "(s, i) \<in> set xs" by (auto simp: x)
    with fresh have "i \<noteq> val" by force
    with snoc.IH [OF d mem] show ?thesis
      by (simp add: x INT2LAB_snoc update_conv')
  qed
qed

lemma keys_INT2LAB_distinct: "distinct (keys (INT2LAB xs))"
proof (induction xs rule: rev_induct)
  case Nil
  then show ?case by (simp add: INT2LAB_def keys_def)
next
  case (snoc x xs)
  then show ?case
    by (cases x) (simp add: INT2LAB_snoc keys_def distinct_update)
qed

lemma keys_INT2LAB_set: "set (keys (INT2LAB xs)) = snd ` set xs"
proof (induction xs rule: rev_induct)
  case Nil
  then show ?case by (simp add: INT2LAB_def keys_def)
next
  case (snoc x xs)
  obtain key val where x: "x = (key, val)" by (cases x)
  have "fst ` set (AList.update val key (INT2LAB xs)) = {val} \<union> fst ` set (INT2LAB xs)"
    by (rule dom_update)
  with snoc show ?case
    by (simp add: x INT2LAB_snoc keys_def)
qed

lemma length_INT2LAB: "length (INT2LAB xs) = card (snd ` set xs)"
proof -
  have "length (INT2LAB xs) = length (keys (INT2LAB xs))"
    by (simp add: keys_def)
  also have "\<dots> = card (set (keys (INT2LAB xs)))"
    using keys_INT2LAB_distinct by (simp add: distinct_card)
  finally show ?thesis
    by (simp add: keys_INT2LAB_set)
qed

section \<open>Claims about the label map and the classifier\<close>

text \<open>
  C3, as the specification states it, says that the label map and its derived inverse
  form a bijection for every label metadata mapping. The comprehension keeps one label
  per integer, so two labels that share an integer break the first round trip: with
  \<open>{jump: 0, squat: 0}\<close> the inverse is \<open>{0: squat}\<close> and \<open>int2label[class2int[jump]]\<close> is
  \<open>squat\<close>.
\<close>

theorem label_map_not_injective_counterexample:
  "distinct (keys [(''jump'', 0::int), (''squat'', 0)])
   \<and> dict_getitem [(''jump'', 0::int), (''squat'', 0)] ''jump'' = Inr 0
   \<and> INT2LAB [(''jump'', 0), (''squat'', 0)] = [(0, ''squat'')]
   \<and> dict_getitem (INT2LAB [(''jump'', 0), (''squat'', 0)]) 0 \<noteq> Inr ''jump''"
  by (simp add: keys_def dict_getitem_def INT2LAB_def dict_setitem_def)

text \<open>
  C3, amended. For every label metadata mapping (a dict, so its keys are distinct),
  \<open>class2int[int2label[i]] = i\<close> for every integer \<open>i\<close> bound in \<open>int2label\<close>; and when no
  two labels share an integer, \<open>int2label[class2int[s]] = s\<close> for every label \<open>s\<close> bound
  in \<open>class2int\<close>, so that the two maps are inverse bijections.
\<close>

theorem label_map_round_trip:
  assumes "distinct (keys class2int)"
  shows "(\<forall>i s. dict_getitem (INT2LAB class2int) i = Inr s \<longrightarrow> dict_getitem class2int s = Inr i)
       \<and> (distinct (map snd class2int) \<longrightarrow>
            (\<forall>s i. dict_getitem class2int s = Inr i
                     \<longrightarrow> dict_getitem (INT2LAB class2int) i = Inr s))"
proof (intro conjI allI impI)
  fix i s
  assume "dict_getitem (INT2LAB class2int) i = Inr s"
  then have "map_of (INT2LAB class2int) i = Some s"
    by (simp add: dict_getitem_def split: option.splits)
  then have "(i, s) \<in> set (INT2LAB class2int)"
    by (rule map_of_SomeD)
  then have "(s, i) \<in> set class2int"
    by (rule INT2LAB_sound)
  with assms have "map_of class2int s = Some i"
    by (simp add: keys_def)
  then show "dict_getitem class2int s = Inr i"
    by (simp add: dict_getitem_def)
next
  fix s i
  assume inj: "distinct (map snd class2int)" and "dict_getitem class2int s = Inr i"
  then have "map_of class2int s = Some i"
    by (simp add: dict_getitem_def split: option.splits)
  then have "(s, i) \<in> set class2int"
    by (rule map_of_SomeD)
  with inj have "map_of (INT2LAB class2int) i = Some s"
    by (rule INT2LAB_complete)
  then show "dict_getitem (INT2LAB class2int) i = Inr s"
    by (simp add: dict_getitem_def)
qed

theorem label_map_round_trip_witness:
  "distinct (keys [(''jump'', 0::int), (''squat'', 1)])
   \<and> distinct (map snd [(''jump'', 0::int), (''squat'', 1)])
   \<and> dict_getitem (INT2LAB [(''jump'', 0), (''squat'', 1)]) 1 = Inr ''squat''
   \<and> dict_getitem [(''jump'', 0::int), (''squat'', 1)] ''squat'' = Inr 1
   \<and> dict_getitem (INT2LAB [(''jump'', 0), (''squat'', 1)]) 0 = Inr ''jump''"
proof -
  let ?c = "[(''jump'', 0::int), (''squat'', 1)]"
  have d: "distinct (keys ?c)" and inj: "distinct (map snd ?c)"
    by (simp_all add: keys_def)
  have fwd: "dict_getitem (INT2LAB ?c) 1 = Inr ''squat''"
    by (simp add: INT2LAB_def dict_setitem_def dict_getitem_def)
  have src: "dict_getitem ?c ''jump'' = Inr 0"
    by (simp add: dict_getitem_def)
  note rt = label_map_round_trip [OF d]
  from rt fwd have inv: "dict_getitem ?c ''squat'' = Inr 1"
    by blast
  from rt inj src have "dict_getitem (INT2LAB ?c) 0 = Inr ''jump''"
    by blast
  with d inj fwd inv show ?thesis
    by simp
qed

text \<open>
  C7. The classifier stage is constructed with input dimension equal to the feature
  dimension of the feature extractor and output dimension equal to the number of entries
  of \<open>INT2LAB\<close> (the number of distinct integers of the label metadata), and it is
  loaded with the classifier weights that the merge left: the bindings of the classifier
  checkpoint whose key the backbone checkpoint does not have.
\<close>

theorem classifier_dimensioning:
  assumes "enumerates ks (name_finetuned_layers checkpoint checkpoint_classifier)"
  shows "\<exists>feature_extractor gesture_classifier checkpoint'.
           build_net fdim ks checkpoint checkpoint_classifier class2int
             = Inr (feature_extractor, gesture_classifier)
         \<and> feature_dim feature_extractor = fdim
         \<and> num_in gesture_classifier = feature_dim feature_extractor
         \<and> num_out gesture_classifier = length (INT2LAB class2int)
         \<and> num_out gesture_classifier = card (snd ` set class2int)
         \<and> merge_loop ks checkpoint checkpoint_classifier
             = Inr (checkpoint', state_dict gesture_classifier)
         \<and> backbone_state feature_extractor = checkpoint'
         \<and> state_dict gesture_classifier
             = filter (\<lambda>kv. fst kv \<notin> set (keys checkpoint)) checkpoint_classifier"
proof -
  from assms have ks: "distinct ks" "set ks \<subseteq> set (keys checkpoint)"
      "set ks \<subseteq> set (keys checkpoint_classifier)"
    and eq: "set ks = set (keys checkpoint) \<inter> set (keys checkpoint_classifier)"
    by (auto simp: enumerates_def name_finetuned_layers_def)
  from merge_loop_result [OF ks] obtain b' c' where
    run: "merge_loop ks checkpoint checkpoint_classifier = Inr (b', c')" and
    fc: "c' = filter (\<lambda>kv. fst kv \<notin> set ks) checkpoint_classifier"
    by blast
  have "filter (\<lambda>kv. fst kv \<notin> set ks) checkpoint_classifier
      = filter (\<lambda>kv. fst kv \<notin> set (keys checkpoint)) checkpoint_classifier"
    using eq by (intro filter_cong) (auto simp: keys_def)
  with fc have fc': "c' = filter (\<lambda>kv. fst kv \<notin> set (keys checkpoint)) checkpoint_classifier"
    by simp
  show ?thesis
    using run fc' by (simp add: build_net_def length_INT2LAB)
qed

theorem classifier_dimensioning_witness:
  "enumerates [''layer2''] (name_finetuned_layers
       [(''layer1'', 1::int), (''layer2'', 2)] [(''layer2'', 20), (''head'', 30)])
   \<and> (\<exists>feature_extractor gesture_classifier.
         build_net 1280 [''layer2''] [(''layer1'', 1::int), (''layer2'', 2)]
            [(''layer2'', 20), (''head'', 30)] [(''jump'', 0), (''squat'', 1)]
           = Inr (feature_extractor, gesture_classifier)
       \<and> num_in gesture_classifier = 1280
       \<and> num_out gesture_classifier = 2
       \<and> state_dict gesture_classifier = [(''head'', 30)])"
proof -
  let ?b = "[(''layer1'', 1::int), (''layer2'', 2)]"
  let ?c = "[(''layer2'', 20::int), (''head'', 30)]"
  let ?l = "[(''jump'', 0::int), (''squat'', 1)]"
  have e: "enumerates [''layer2''] (name_finetuned_layers ?b ?c)"
    by (auto simp: enumerates_def name_finetuned_layers_def keys_def)
  have n: "length (INT2LAB ?l) = 2"
    by (simp add: INT2LAB_def dict_setitem_def)
  have f: "filter (\<lambda>kv. fst kv \<notin> set (keys ?b)) ?c = [(''head'', 30)]"
    by (simp add: keys_def)
  from classifier_dimensioning [OF e, of 1280 ?l] obtain fe gc where
    "build_net 1280 [''layer2''] ?b ?c ?l = Inr (fe, gc)"
    "feature_dim fe = 1280" "num_in gc = feature_dim fe"
    "num_out gc = length (INT2LAB ?l)"
    "state_dict gc = filter (\<lambda>kv. fst kv \<notin> set (keys ?b)) ?c"
    by blast
  with e n f show ?thesis
    by auto
qed

section \<open>Properties of the repetition counter\<close>

lemma feed_append:
  "feed cfg st (xs @ ys) =
     (case feed cfg st xs of Inl e \<Rightarrow> Inl e | Inr st' \<Rightarrow> feed cfg st' ys)"
  by (induction xs arbitrary: st) (auto split: sum.splits)

lemma apply_waiting_below:
  "tag st = Waiting_pos0 \<Longrightarrow> below0 cfg p \<Longrightarrow> two_positions_apply cfg st p = Inr st"
  by (simp add: two_positions_apply_def below0_def prob_at_def)

lemma apply_waiting_crosses:
  "tag st = Waiting_pos0 \<Longrightarrow> crosses0 cfg p
     \<Longrightarrow> two_positions_apply cfg st p = Inr (st\<lparr>tag := Armed_pos0\<rparr>)"
  by (simp add: two_positions_apply_def crosses0_def prob_at_def)

lemma apply_armed_below:
  "tag st = Armed_pos0 \<Longrightarrow> below1 cfg p \<Longrightarrow> two_positions_apply cfg st p = Inr st"
  by (simp add: two_positions_apply_def below1_def prob_at_def)

lemma apply_armed_crosses:
  "tag st = Armed_pos0 \<Longrightarrow> crosses1 cfg p
     \<Longrightarrow> two_positions_apply cfg st p = Inr (st\<lparr>tag := Waiting_pos0, count := count st + 1\<rparr>)"
  by (simp add: two_positions_apply_def crosses1_def prob_at_def)

lemma feed_waiting_below:
  "tag st = Waiting_pos0 \<Longrightarrow> \<forall>p \<in> set xs. below0 cfg p \<Longrightarrow> feed cfg st xs = Inr st"
  by (induction xs) (simp_all add: apply_waiting_below)

lemma feed_armed_below:
  "tag st = Armed_pos0 \<Longrightarrow> \<forall>p \<in> set ys. below1 cfg p \<Longrightarrow> feed cfg st ys = Inr st"
  by (induction ys) (simp_all add: apply_armed_below)

text \<open>One repetition: position 0 is reached, then position 1.\<close>

lemma feed_repetition:
  assumes "tag st = Waiting_pos0"
    and "\<forall>p \<in> set xs. below0 cfg p" and "crosses0 cfg a"
    and "\<forall>p \<in> set ys. below1 cfg p" and "crosses1 cfg b"
  shows "feed cfg st (xs @ a # ys @ [b]) = Inr (st\<lparr>count := count st + 1\<rparr>)"
proof -
  let ?armed = "st\<lparr>tag := Armed_pos0\<rparr>"
  have 1: "feed cfg st xs = Inr st"
    using assms(1,2) by (rule feed_waiting_below)
  have 2: "two_positions_apply cfg st a = Inr ?armed"
    using assms(1,3) by (rule apply_waiting_crosses)
  have 3: "feed cfg ?armed ys = Inr ?armed"
    using assms(4) by (intro feed_armed_below) simp_all
  have 4: "two_positions_apply cfg ?armed b
             = Inr (?armed\<lparr>tag := Waiting_pos0, count := count ?armed + 1\<rparr>)"
    using assms(5) by (intro apply_armed_crosses) simp_all
  have 5: "?armed\<lparr>tag := Waiting_pos0, count := count ?armed + 1\<rparr> = st\<lparr>count := count st + 1\<rparr>"
    using assms(1) by simp
  have "feed cfg ?armed (ys @ [b]) = Inr (st\<lparr>count := count st + 1\<rparr>)"
    using 3 4 5 by (simp add: feed_append)
  then have "feed cfg st (a # ys @ [b]) = Inr (st\<lparr>count := count st + 1\<rparr>)"
    using 2 by simp
  then show ?thesis
    using 1 by (simp add: feed_append)
qed

section \<open>Claim about the repetition counter\<close>

text \<open>
  C4. TwoPositionsRepCounter ordering. While the counter waits for position 0 and the
  probability at \<open>L0\<close> stays below \<open>T0\<close>, no frame changes the state or the count,
  whatever the probability at \<open>L1\<close> is (so a crossing of \<open>T1\<close> there is ignored). Frames in
  which \<open>L0\<close> reaches \<open>T0\<close> and, later, \<open>L1\<close> reaches \<open>T1\<close> increment the count exactly
  once; a second such sequence increments it again, to 2 when the count started at 0.
\<close>

theorem two_positions_ordering:
  assumes "tag st = Waiting_pos0"
    and "\<forall>p \<in> set xs. below0 cfg p" and "crosses0 cfg a"
    and "\<forall>p \<in> set ys. below1 cfg p" and "crosses1 cfg b"
    and "\<forall>p \<in> set xs'. below0 cfg p" and "crosses0 cfg a'"
    and "\<forall>p \<in> set ys'. below1 cfg p" and "crosses1 cfg b'"
  shows "feed cfg st xs = Inr st
       \<and> feed cfg st (xs @ a # ys @ [b]) = Inr (st\<lparr>count := count st + 1\<rparr>)
       \<and> feed cfg st ((xs @ a # ys @ [b]) @ (xs' @ a' # ys' @ [b']))
           = Inr (st\<lparr>count := count st + 2\<rparr>)"
proof (intro conjI)
  show "feed cfg st xs = Inr st"
    using assms(1,2) by (rule feed_waiting_below)
  show first: "feed cfg st (xs @ a # ys @ [b]) = Inr (st\<lparr>count := count st + 1\<rparr>)"
    using assms(1-5) by (rule feed_repetition)
  let ?st1 = "st\<lparr>count := count st + 1\<rparr>"
  have w: "tag ?st1 = Waiting_pos0"
    using assms(1) by simp
  have "feed cfg ?st1 (xs' @ a' # ys' @ [b']) = Inr (?st1\<lparr>count := count ?st1 + 1\<rparr>)"
    using w assms(6-9) by (rule feed_repetition)
  then have second: "feed cfg ?st1 (xs' @ a' # ys' @ [b']) = Inr (st\<lparr>count := count st + 2\<rparr>)"
    by simp
  show "feed cfg st ((xs @ a # ys @ [b]) @ (xs' @ a' # ys' @ [b']))
           = Inr (st\<lparr>count := count st + 2\<rparr>)"
    by (subst feed_append) (simp only: first sum.case second)
qed

theorem two_positions_ordering_witness:
  "feed \<lparr>L0 = 0, L1 = 1, T0 = 0.1, T1 = 0.05\<rparr> initial_state [[0, 0.9], [0.05, 0.05]]
     = Inr initial_state
   \<and> feed \<lparr>L0 = 0, L1 = 1, T0 = 0.1, T1 = 0.05\<rparr> initial_state
       ([[0, 0.9], [0.05, 0.05]] @ [0.5, 0] # [[0.5, 0.01]] @ [[0, 0.3]])
     = Inr \<lparr>tag = Waiting_pos0, count = 1\<rparr>
   \<and> feed \<lparr>L0 = 0, L1 = 1, T0 = 0.1, T1 = 0.05\<rparr> initial_state
       (([[0, 0.9], [0.05, 0.05]] @ [0.5, 0] # [[0.5, 0.01]] @ [[0, 0.3]])
         @ ([] @ [0.1, 0.9] # [] @ [[0, 0.05]]))
     = Inr \<lparr>tag = Waiting_pos0, count = 2\<rparr>"
proof -
  let ?cfg = "\<lparr>L0 = 0, L1 = 1, T0 = 0.1, T1 = 0.05\<rparr>"
  have h1: "tag initial_state = Waiting_pos0"
    by (simp add: initial_state_def)
  have h2: "\<forall>p \<in> set [[0, 0.9], [0.05, 0.05]]. below0 ?cfg p"
    by (simp add: below0_def)
  have h3: "crosses0 ?cfg [0.5, 0]"
    by (simp add: crosses0_def)
  have h4: "\<forall>p \<in> set [[0.5, 0.01]]. below1 ?cfg p"
    by (simp add: below1_def)
  have h5: "crosses1 ?cfg [0, 0.3]"
    by (simp add: crosses1_def)
  have h6: "\<forall>p \<in> set []. below0 ?cfg p"
    by simp
  have h7: "crosses0 ?cfg [0.1, 0.9]"
    by (simp add: crosses0_def)
  have h8: "\<forall>p \<in> set []. below1 ?cfg p"
    by simp
  have h9: "crosses1 ?cfg [0, 0.05]"
    by (simp add: crosses1_def)
  show ?thesis
    using two_positions_ordering [OF h1 h2 h3 h4 h5 h6 h7 h8 h9]
    by (simp add: initial_state_def)
qed

section \<open>Properties of the tag handlers\<close>

lemmas handler_defs =
  create_tag_def remove_tag_def edit_tag_def load_project_config_def
  write_project_config_def create_tag_body_def remove_tag_body_def edit_tag_body_def

lemma load_project_config_Inr:
  "load_project_config st path = Inr cfg \<longleftrightarrow> st path = Some cfg"
  by (simp add: load_project_config_def split: option.splits)

lemma handle_max_tag_index:
  assumes "load_project_config st path = Inr cfg"
  shows "\<exists>cfg'. load_project_config (snd (handle path r st)) path = Inr cfg'
           \<and> max_tag_index cfg \<le> max_tag_index cfg'
           \<and> (\<forall>i \<in> set (allocated path r st).
                 i = max_tag_index cfg + 1 \<and> max_tag_index cfg' = i)"
proof (cases r)
  case (CreateTag tag_name)
  with assms show ?thesis
    by (simp add: handler_defs Let_def split: option.splits)
next
  case (RemoveTag tag_idx)
  with assms show ?thesis
    by (auto simp: handler_defs split: option.splits sum.splits)
next
  case (EditTag tag_idx new_tag_name)
  with assms show ?thesis
    by (simp add: handler_defs split: option.splits)
qed

lemma serve_append: "serve path (rs1 @ rs2) st = serve path rs2 (serve path rs1 st)"
  by (induction rs1 arbitrary: st) simp_all

lemma allocated_ids_append:
  "allocated_ids path (rs1 @ rs2) st
     = allocated_ids path rs1 st @ allocated_ids path rs2 (serve path rs1 st)"
  by (induction rs1 arbitrary: st) simp_all

lemma serve_max_tag_index:
  "load_project_config st path = Inr cfg \<Longrightarrow>
     \<exists>cfg'. load_project_config (serve path rs st) path = Inr cfg'
           \<and> max_tag_index cfg \<le> max_tag_index cfg'"
proof (induction rs arbitrary: st cfg)
  case Nil
  then show ?case by simp
next
  case (Cons r rs)
  from handle_max_tag_index [OF Cons.prems, of r] obtain cfg1 where
    1: "load_project_config (snd (handle path r st)) path = Inr cfg1" and
    le: "max_tag_index cfg \<le> max_tag_index cfg1"
    by blast
  from Cons.IH [OF 1] obtain cfg' where
    "load_project_config (serve path rs (snd (handle path r st))) path = Inr cfg'"
    "max_tag_index cfg1 \<le> max_tag_index cfg'"
    by blast
  with le show ?case
    by auto
qed

lemma allocated_ids_above:
  "load_project_config st path = Inr cfg \<Longrightarrow> i \<in> set (allocated_ids path rs st)
     \<Longrightarrow> max_tag_index cfg < i"
proof (induction rs arbitrary: st cfg)
  case Nil
  then show ?case by simp
next
  case (Cons r rs)
  from handle_max_tag_index [OF Cons.prems(1), of r] obtain cfg1 where
    next_cfg: "load_project_config (snd (handle path r st)) path = Inr cfg1" and
    le: "max_tag_index cfg \<le> max_tag_index cfg1" and
    al: "\<forall>j \<in> set (allocated path r st). j = max_tag_index cfg + 1"
    by blast
  from Cons.prems(2) consider (now) "i \<in> set (allocated path r st)"
    | (later) "i \<in> set (allocated_ids path rs (snd (handle path r st)))"
    by auto
  then show ?case
  proof cases
    case now
    with al have "i = max_tag_index cfg + 1" by blast
    then show ?thesis by simp
  next
    case later
    with next_cfg have "max_tag_index cfg1 < i" by (rule Cons.IH)
    with le show ?thesis by simp
  qed
qed

lemma allocated_ids_increasing:
  "load_project_config st path = Inr cfg \<Longrightarrow> sorted_wrt (<) (allocated_ids path rs st)"
proof (induction rs arbitrary: st cfg)
  case Nil
  then show ?case by simp
next
  case (Cons r rs)
  let ?st1 = "snd (handle path r st)"
  from handle_max_tag_index [OF Cons.prems, of r] obtain cfg1 where
    next_cfg: "load_project_config ?st1 path = Inr cfg1" and
    al: "\<forall>j \<in> set (allocated path r st). max_tag_index cfg1 = j"
    by blast
  have rest: "sorted_wrt (<) (allocated_ids path rs ?st1)"
    using next_cfg by (rule Cons.IH)
  have single: "sorted_wrt (<) (allocated path r st)"
    by (cases r) (simp_all split: sum.splits)
  have cross: "\<forall>x \<in> set (allocated path r st). \<forall>y \<in> set (allocated_ids path rs ?st1). x < y"
    using al allocated_ids_above [OF next_cfg] by auto
  from single rest cross show ?case
    by (simp add: sorted_wrt_append)
qed

lemma remove_from_classes_distinct:
  assumes "\<forall>(class_label, tags) \<in> set cls. distinct tags"
  shows "remove_from_classes tag_idx cls
           = map (\<lambda>(class_label, tags). (class_label, removeAll tag_idx tags)) cls"
  unfolding remove_from_classes_def
proof (rule map_cong [OF refl])
  fix x
  assume x: "x \<in> set cls"
  obtain class_label tags where eq: "x = (class_label, tags)" by (cases x)
  with assms x have "distinct tags" by auto
  then have "(if tag_idx \<in> set tags then remove1 tag_idx tags else tags) = removeAll tag_idx tags"
    by (simp add: distinct_remove1_removeAll)
  then show "(case x of (class_label, tags) \<Rightarrow>
               (class_label, if tag_idx \<in> set tags then remove1 tag_idx tags else tags))
           = (case x of (class_label, tags) \<Rightarrow> (class_label, removeAll tag_idx tags))"
    by (simp add: eq)
qed

lemma handle_tags_bounded:
  assumes "load_project_config st path = Inr cfg" and "tags_bounded cfg" and "\<not> editing r"
  shows "\<exists>cfg'. load_project_config (snd (handle path r st)) path = Inr cfg'
           \<and> tags_bounded cfg'"
proof (cases r)
  case (CreateTag tag_name)
  let ?cfg' = "snd (create_tag_body cfg tag_name)"
  have "fst ` set (AList.update (max_tag_index cfg + 1) tag_name (project_tags cfg))
          = {max_tag_index cfg + 1} \<union> fst ` set (project_tags cfg)"
    by (rule dom_update)
  then have "set (keys (project_tags ?cfg')) = insert (max_tag_index cfg + 1) (set (keys (project_tags cfg)))"
    by (simp add: create_tag_body_def Let_def keys_def dict_setitem_def)
  moreover have "max_tag_index ?cfg' = max_tag_index cfg + 1"
    by (simp add: create_tag_body_def Let_def)
  ultimately have "tags_bounded ?cfg'"
    using assms(2) by (fastforce simp: tags_bounded_def list_all_iff)
  moreover have "load_project_config (snd (handle path r st)) path = Inr ?cfg'"
    using assms(1) CreateTag
    by (simp add: create_tag_def load_project_config_def write_project_config_def)
  ultimately show ?thesis
    by blast
next
  case (RemoveTag tag_idx)
  show ?thesis
  proof (cases "remove_tag_body cfg tag_idx")
    case (Inl e)
    with assms RemoveTag show ?thesis
      by (simp add: remove_tag_def)
  next
    case (Inr cfg')
    then have "set (keys (project_tags cfg')) \<subseteq> set (keys (project_tags cfg))"
      and "max_tag_index cfg' = max_tag_index cfg"
      by (auto simp: remove_tag_body_def dict_delitem_def keys_delete
               split: option.splits)
    with assms(2) have "tags_bounded cfg'"
      by (auto simp: tags_bounded_def list_all_iff)
    moreover have "load_project_config (snd (handle path r st)) path = Inr cfg'"
      using assms(1) RemoveTag Inr
      by (simp add: remove_tag_def load_project_config_def write_project_config_def)
    ultimately show ?thesis
      by blast
  qed
next
  case (EditTag tag_idx new_tag_name)
  with assms(3) show ?thesis
    by simp
qed

lemma serve_tags_bounded:
  "load_project_config st path = Inr cfg \<Longrightarrow> tags_bounded cfg
     \<Longrightarrow> \<forall>r \<in> set rs. \<not> editing r
     \<Longrightarrow> \<exists>cfg'. load_project_config (serve path rs st) path = Inr cfg' \<and> tags_bounded cfg'"
proof (induction rs arbitrary: st cfg)
  case Nil
  then show ?case by simp
next
  case (Cons r rs)
  from Cons.prems(3) have r: "\<not> editing r" and rs: "\<forall>r \<in> set rs. \<not> editing r"
    by simp_all
  from handle_tags_bounded [OF Cons.prems(1,2) r] obtain cfg1 where
    "load_project_config (snd (handle path r st)) path = Inr cfg1" "tags_bounded cfg1"
    by blast
  from Cons.IH [OF this rs] show ?case
    by simp
qed

section \<open>Claims about the tag handlers\<close>

text \<open>
  C5, as the specification states it, says that the id of a deleted tag is never
  allocated again by a later \<open>create_tag\<close>. \<open>edit_tag\<close> assigns to \<open>project_tags[tag_idx]\<close>
  whether or not \<open>tag_idx\<close> is bound, so it can bind an id above \<open>max_tag_index\<close>. From
  \<open>{project_tags: {1: serve}, max_tag_index: 1}\<close>, editing tag 2 binds it, removing tag 2
  succeeds and leaves \<open>max_tag_index\<close> at 1, and the next \<open>create_tag\<close> allocates 2 again.
\<close>

theorem deleted_tag_id_reallocated_counterexample:
  "load_project_config (serve ''p'' [EditTag 2 ''block''] 
        [''p'' \<mapsto> \<lparr>project_tags = [(1, ''serve'')], max_tag_index = 1, classes = []\<rparr>]) ''p''
     = Inr \<lparr>project_tags = [(1, ''serve''), (2, ''block'')], max_tag_index = 1, classes = []\<rparr>
   \<and> fst (remove_tag ''p'' 2 (serve ''p'' [EditTag 2 ''block''] 
        [''p'' \<mapsto> \<lparr>project_tags = [(1, ''serve'')], max_tag_index = 1, classes = []\<rparr>])) = Inr ()
   \<and> load_project_config (serve ''p'' [EditTag 2 ''block'', RemoveTag 2] 
        [''p'' \<mapsto> \<lparr>project_tags = [(1, ''serve'')], max_tag_index = 1, classes = []\<rparr>]) ''p''
     = Inr \<lparr>project_tags = [(1, ''serve'')], max_tag_index = 1, classes = []\<rparr>
   \<and> allocated_ids ''p'' [CreateTag ''spike'']
        (serve ''p'' [EditTag 2 ''block'', RemoveTag 2] 
        [''p'' \<mapsto> \<lparr>project_tags = [(1, ''serve'')], max_tag_index = 1, classes = []\<rparr>]) = [2]
   \<and> load_project_config
        (serve ''p'' [EditTag 2 ''block'', RemoveTag 2, CreateTag ''spike''] 
        [''p'' \<mapsto> \<lparr>project_tags = [(1, ''serve'')], max_tag_index = 1, classes = []\<rparr>]) ''p''
     = Inr \<lparr>project_tags = [(1, ''serve''), (2, ''spike'')], max_tag_index = 2, classes = []\<rparr>"
  by (simp add: handler_defs dict_setitem_def dict_delitem_def remove_from_classes_def)

text \<open>
  C5, amended. Tag id allocation. On a stored configuration, \<open>create_tag\<close> allocates the
  id \<open>max_tag_index + 1\<close>, binds the new name to it and writes that id back as
  \<open>max_tag_index\<close>; \<open>remove_tag\<close> leaves \<open>max_tag_index\<close> as it was, whether it succeeds or
  raises. Over any sequence of requests \<open>max_tag_index\<close> never decreases and the ids that
  \<open>create_tag\<close> allocates are strictly increasing. Hence an id that is not above
  \<open>max_tag_index\<close>, or that an earlier \<open>create_tag\<close> allocated, is not allocated by any
  \<open>create_tag\<close> that follows its removal. In particular, starting from a configuration
  whose tag ids are bounded by \<open>max_tag_index\<close>, after any create and remove requests
  the id of a tag that is then deleted is never allocated again.
\<close>

theorem tag_id_allocation:
  assumes "load_project_config st path = Inr cfg"
  shows "(\<exists>cfg'. create_tag path tag_name st = (Inr (), write_project_config path cfg' st)
            \<and> allocated path (CreateTag tag_name) st = [max_tag_index cfg + 1]
            \<and> dict_getitem (project_tags cfg') (max_tag_index cfg + 1) = Inr tag_name
            \<and> max_tag_index cfg' = max_tag_index cfg + 1)
       \<and> (\<exists>cfg'. load_project_config (snd (remove_tag path tag_idx st)) path = Inr cfg'
            \<and> max_tag_index cfg' = max_tag_index cfg)
       \<and> (\<exists>cfg'. load_project_config (serve path rs st) path = Inr cfg'
            \<and> max_tag_index cfg \<le> max_tag_index cfg')
       \<and> sorted_wrt (<) (allocated_ids path rs st)
       \<and> (i \<le> max_tag_index cfg \<or> i \<in> set (allocated_ids path rs1 st) \<longrightarrow>
            i \<notin> set (allocated_ids path rs2 (serve path (rs1 @ [RemoveTag i]) st)))
       \<and> (tags_bounded cfg \<and> (\<forall>r \<in> set rs1. \<not> editing r)
            \<and> load_project_config (serve path rs1 st) path = Inr cfg1
            \<and> j \<in> set (keys (project_tags cfg1)) \<longrightarrow>
            j \<notin> set (allocated_ids path rs2 (serve path (rs1 @ [RemoveTag j]) st)))"
proof (intro conjI impI)
  show "\<exists>cfg'. create_tag path tag_name st = (Inr (), write_project_config path cfg' st)
            \<and> allocated path (CreateTag tag_name) st = [max_tag_index cfg + 1]
            \<and> dict_getitem (project_tags cfg') (max_tag_index cfg + 1) = Inr tag_name
            \<and> max_tag_index cfg' = max_tag_index cfg + 1"
  proof (intro exI conjI)
    show "create_tag path tag_name st
            = (Inr (), write_project_config path (snd (create_tag_body cfg tag_name)) st)"
      using assms by (simp add: create_tag_def)
    show "allocated path (CreateTag tag_name) st = [max_tag_index cfg + 1]"
      using assms by (simp add: create_tag_body_def Let_def)
    show "dict_getitem (project_tags (snd (create_tag_body cfg tag_name)))
            (max_tag_index cfg + 1) = Inr tag_name"
      by (simp add: create_tag_body_def Let_def dict_getitem_def dict_setitem_def update_conv')
    show "max_tag_index (snd (create_tag_body cfg tag_name)) = max_tag_index cfg + 1"
      by (simp add: create_tag_body_def Let_def)
  qed
  have "\<exists>cfg'. load_project_config (snd (handle path (RemoveTag tag_idx) st)) path = Inr cfg'
            \<and> max_tag_index cfg' = max_tag_index cfg"
    using assms
    by (auto simp: handler_defs split: option.splits sum.splits)
  then show "\<exists>cfg'. load_project_config (snd (remove_tag path tag_idx st)) path = Inr cfg'
            \<and> max_tag_index cfg' = max_tag_index cfg"
    by simp
  show "\<exists>cfg'. load_project_config (serve path rs st) path = Inr cfg'
            \<and> max_tag_index cfg \<le> max_tag_index cfg'"
    using assms by (rule serve_max_tag_index)
  show "sorted_wrt (<) (allocated_ids path rs st)"
    using assms by (rule allocated_ids_increasing)
next
  assume i: "i \<le> max_tag_index cfg \<or> i \<in> set (allocated_ids path rs1 st)"
  let ?later = "allocated_ids path rs2 (serve path (rs1 @ [RemoveTag i]) st)"
  have split: "allocated_ids path (rs1 @ [RemoveTag i] @ rs2) st
                 = allocated_ids path rs1 st @ ?later"
    by (simp add: allocated_ids_append serve_append)
  have "sorted_wrt (<) (allocated_ids path (rs1 @ [RemoveTag i] @ rs2) st)"
    using assms by (rule allocated_ids_increasing)
  then have earlier: "\<forall>x \<in> set (allocated_ids path rs1 st). \<forall>y \<in> set ?later. x < y"
    unfolding split by (simp add: sorted_wrt_append)
  have above: "\<forall>y \<in> set ?later. max_tag_index cfg < y"
  proof
    fix y
    assume "y \<in> set ?later"
    then have "y \<in> set (allocated_ids path (rs1 @ [RemoveTag i] @ rs2) st)"
      unfolding split by simp
    with assms show "max_tag_index cfg < y"
      by (rule allocated_ids_above)
  qed
  from i earlier above show "i \<notin> set ?later"
    by fastforce
next
  assume h: "tags_bounded cfg \<and> (\<forall>r \<in> set rs1. \<not> editing r)
            \<and> load_project_config (serve path rs1 st) path = Inr cfg1
            \<and> j \<in> set (keys (project_tags cfg1))"
  let ?st1 = "serve path rs1 st"
  from h assms serve_tags_bounded [of st path cfg rs1] have "tags_bounded cfg1"
    by auto
  with h have le: "j \<le> max_tag_index cfg1"
    by (simp add: tags_bounded_def list_all_iff)
  have eq: "allocated_ids path rs2 (serve path (rs1 @ [RemoveTag j]) st)
              = allocated_ids path (RemoveTag j # rs2) ?st1"
    by (simp add: serve_append)
  have "\<forall>y \<in> set (allocated_ids path (RemoveTag j # rs2) ?st1). max_tag_index cfg1 < y"
    using h allocated_ids_above [of ?st1 path cfg1 _ "RemoveTag j # rs2"] by blast
  with le show "j \<notin> set (allocated_ids path rs2 (serve path (rs1 @ [RemoveTag j]) st))"
    unfolding eq by fastforce
qed

theorem tag_id_allocation_witness:
  "load_project_config [''p'' \<mapsto> \<lparr>project_tags = [], max_tag_index = 0, classes = []\<rparr>] ''p''
      = Inr \<lparr>project_tags = [], max_tag_index = 0, classes = []\<rparr>
   \<and> allocated_ids ''p'' [CreateTag ''serve'']
        [''p'' \<mapsto> \<lparr>project_tags = [], max_tag_index = 0, classes = []\<rparr>] = [1]
   \<and> 1 \<notin> set (allocated_ids ''p'' [CreateTag ''spike'']
        (serve ''p'' ([CreateTag ''serve''] @ [RemoveTag 1])
           [''p'' \<mapsto> \<lparr>project_tags = [], max_tag_index = 0, classes = []\<rparr>]))"
proof -
  let ?cfg = "\<lparr>project_tags = [], max_tag_index = 0, classes = []\<rparr>"
  let ?st = "[''p'' \<mapsto> ?cfg]"
  have h: "load_project_config ?st ''p'' = Inr ?cfg"
    by (simp add: load_project_config_def)
  have a: "allocated_ids ''p'' [CreateTag ''serve''] ?st = [1]"
    by (simp add: handler_defs)
  then have m: "1 \<in> set (allocated_ids ''p'' [CreateTag ''serve''] ?st)"
    by simp
  have b: "tags_bounded ?cfg" "\<forall>r \<in> set [CreateTag ''serve'']. \<not> editing r"
    by (simp_all add: tags_bounded_def keys_def)
  have c: "load_project_config (serve ''p'' [CreateTag ''serve''] ?st) ''p''
             = Inr \<lparr>project_tags = [(1, ''serve'')], max_tag_index = 1, classes = []\<rparr>"
    by (simp add: handler_defs dict_setitem_def)
  have k: "1 \<in> set (keys (project_tags
             \<lparr>project_tags = [(1, ''serve'')], max_tag_index = 1, classes = []\<rparr>))"
    by (simp add: keys_def)
  note t = tag_id_allocation [OF h, of _ _ _ 1 "[CreateTag ''serve'']" "[CreateTag ''spike'']"
      "\<lparr>project_tags = [(1, ''serve'')], max_tag_index = 1, classes = []\<rparr>" 1]
  from t m have "1 \<notin> set (allocated_ids ''p'' [CreateTag ''spike'']
        (serve ''p'' ([CreateTag ''serve''] @ [RemoveTag 1]) ?st))"
    by blast
  moreover from t b c k have "1 \<notin> set (allocated_ids ''p'' [CreateTag ''spike'']
        (serve ''p'' ([CreateTag ''serve''] @ [RemoveTag 1]) ?st))"
    by blast
  ultimately show ?thesis
    using h a by blast
qed

text \<open>
  C6. Cascade delete. For a stored configuration whose class tag lists are sets (no id
  twice) and a \<open>tag_idx\<close> bound in \<open>project_tags\<close>, \<open>remove_tag\<close> succeeds and writes a
  configuration in which \<open>tag_idx\<close> is no longer bound in \<open>project_tags\<close>, the other tags
  are bound as before, every class keeps its label, and every class's tags are the
  former ones without \<open>tag_idx\<close>, the others unchanged and in their order.
\<close>

theorem remove_tag_cascade:
  assumes "load_project_config st path = Inr cfg"
    and "tag_idx \<in> set (keys (project_tags cfg))"
    and "\<forall>(class_label, tags) \<in> set (classes cfg). distinct tags"
  shows "\<exists>cfg'. remove_tag path tag_idx st = (Inr (), write_project_config path cfg' st)
           \<and> tag_idx \<notin> set (keys (project_tags cfg'))
           \<and> (\<forall>k. k \<noteq> tag_idx \<longrightarrow>
                 dict_getitem (project_tags cfg') k = dict_getitem (project_tags cfg) k)
           \<and> keys (classes cfg') = keys (classes cfg)
           \<and> classes cfg'
               = map (\<lambda>(class_label, tags). (class_label, removeAll tag_idx tags)) (classes cfg)
           \<and> (\<forall>n < length (classes cfg).
                 set (snd (classes cfg' ! n)) = set (snd (classes cfg ! n)) - {tag_idx})"
proof -
  let ?cfg' = "cfg\<lparr>project_tags := AList.delete tag_idx (project_tags cfg),
                    classes := remove_from_classes tag_idx (classes cfg)\<rparr>"
  have "map_of (project_tags cfg) tag_idx \<noteq> None"
    using assms(2) by (simp add: map_of_eq_None_keys)
  then obtain name where name: "map_of (project_tags cfg) tag_idx = Some name"
    by blast
  have body: "remove_tag_body cfg tag_idx = Inr ?cfg'"
    using name by (simp add: remove_tag_body_def dict_delitem_def)
  have run: "remove_tag path tag_idx st = (Inr (), write_project_config path ?cfg' st)"
    using assms(1) body by (simp add: remove_tag_def)
  have gone: "tag_idx \<notin> set (keys (project_tags ?cfg'))"
    by (simp add: keys_delete)
  have others: "\<forall>k. k \<noteq> tag_idx \<longrightarrow>
                 dict_getitem (project_tags ?cfg') k = dict_getitem (project_tags cfg) k"
    by (simp add: dict_getitem_def)
  have cls: "classes ?cfg'
               = map (\<lambda>(class_label, tags). (class_label, removeAll tag_idx tags)) (classes cfg)"
    using assms(3) by (simp add: remove_from_classes_distinct)
  have labels: "keys (classes ?cfg') = keys (classes cfg)"
    unfolding cls keys_def by (simp add: case_prod_beta comp_def)
  have sets: "\<forall>n < length (classes cfg).
                 set (snd (classes ?cfg' ! n)) = set (snd (classes cfg ! n)) - {tag_idx}"
    unfolding cls by (simp add: case_prod_beta)
  from run gone others labels cls sets show ?thesis
    by blast
qed

theorem remove_tag_cascade_witness:
  "load_project_config
      [''p'' \<mapsto> \<lparr>project_tags = [(1, ''serve''), (2, ''spike'')], max_tag_index = 2,
                  classes = [(''rally'', [1, 2]), (''idle'', [2])]\<rparr>] ''p''
     = Inr \<lparr>project_tags = [(1, ''serve''), (2, ''spike'')], max_tag_index = 2,
            classes = [(''rally'', [1, 2]), (''idle'', [2])]\<rparr>
   \<and> 2 \<in> set (keys [(1::int, ''serve''), (2, ''spike'')])
   \<and> (\<exists>cfg'. remove_tag ''p'' 2
         [''p'' \<mapsto> \<lparr>project_tags = [(1, ''serve''), (2, ''spike'')], max_tag_index = 2,
                     classes = [(''rally'', [1, 2]), (''idle'', [2])]\<rparr>]
        = (Inr (), write_project_config ''p'' cfg'
             [''p'' \<mapsto> \<lparr>project_tags = [(1, ''serve''), (2, ''spike'')], max_tag_index = 2,
                         classes = [(''rally'', [1, 2]), (''idle'', [2])]\<rparr>])
        \<and> 2 \<notin> set (keys (project_tags cfg'))
        \<and> classes cfg' = [(''rally'', [1]), (''idle'', [])])"
proof -
  let ?cfg = "\<lparr>project_tags = [(1, ''serve''), (2, ''spike'')], max_tag_index = 2,
               classes = [(''rally'', [1, 2]), (''idle'', [2])]\<rparr>"
  let ?st = "[''p'' \<mapsto> ?cfg]"
  have h1: "load_project_config ?st ''p'' = Inr ?cfg"
    by (simp add: load_project_config_def)
  have h2: "2 \<in> set (keys (project_tags ?cfg))"
    by (simp add: keys_def)
  have h3: "\<forall>(class_label, tags) \<in> set (classes ?cfg). distinct tags"
    by simp
  from remove_tag_cascade [OF h1 h2 h3] obtain cfg' where
    "remove_tag ''p'' 2 ?st = (Inr (), write_project_config ''p'' cfg' ?st)"
    "2 \<notin> set (keys (project_tags cfg'))"
    "classes cfg'
       = map (\<lambda>(class_label, tags). (class_label, removeAll 2 tags)) (classes ?cfg)"
    by blast
  moreover have "map (\<lambda>(class_label, tags). (class_label, removeAll 2 tags)) (classes ?cfg)
                   = [(''rally'', [1]), (''idle'', [])]"
    by simp
  ultimately show ?thesis
    using h1 h2 by auto
qed

text \<open>
  C9. Frame property of \<open>edit_tag\<close>. On a stored configuration \<open>edit_tag\<close> succeeds and
  writes a configuration in which \<open>project_tags[tag_idx]\<close> is the submitted name, every
  other tag id is bound as before, and \<open>max_tag_index\<close> and \<open>classes\<close> are unchanged; the
  configurations stored at other paths are untouched.
\<close>

theorem edit_tag_frame:
  assumes "load_project_config st path = Inr cfg"
  shows "\<exists>cfg'. edit_tag path tag_idx new_tag_name st
                   = (Inr (), write_project_config path cfg' st)
           \<and> dict_getitem (project_tags cfg') tag_idx = Inr new_tag_name
           \<and> (\<forall>k. k \<noteq> tag_idx \<longrightarrow>
                 dict_getitem (project_tags cfg') k = dict_getitem (project_tags cfg) k)
           \<and> max_tag_index cfg' = max_tag_index cfg
           \<and> classes cfg' = classes cfg
           \<and> (\<forall>other. other \<noteq> path \<longrightarrow>
                 load_project_config (write_project_config path cfg' st) other
                   = load_project_config st other)"
proof (intro exI conjI)
  let ?cfg' = "edit_tag_body cfg tag_idx new_tag_name"
  show "edit_tag path tag_idx new_tag_name st = (Inr (), write_project_config path ?cfg' st)"
    using assms by (simp add: edit_tag_def)
  show "dict_getitem (project_tags ?cfg') tag_idx = Inr new_tag_name"
    by (simp add: edit_tag_body_def dict_getitem_def dict_setitem_def update_conv')
  show "\<forall>k. k \<noteq> tag_idx \<longrightarrow>
          dict_getitem (project_tags ?cfg') k = dict_getitem (project_tags cfg) k"
    by (simp add: edit_tag_body_def dict_getitem_def dict_setitem_def update_conv')
  show "max_tag_index ?cfg' = max_tag_index cfg"
    by (simp add: edit_tag_body_def)
  show "classes ?cfg' = classes cfg"
    by (simp add: edit_tag_body_def)
  show "\<forall>other. other \<noteq> path \<longrightarrow>
          load_project_config (write_project_config path ?cfg' st) other
            = load_project_config st other"
    by (simp add: load_project_config_def write_project_config_def)
qed

theorem edit_tag_frame_witness:
  "load_project_config
      [''p'' \<mapsto> \<lparr>project_tags = [(1, ''serve''), (2, ''spike'')], max_tag_index = 2,
                  classes = [(''rally'', [1, 2])]\<rparr>] ''p''
     = Inr \<lparr>project_tags = [(1, ''serve''), (2, ''spike'')], max_tag_index = 2,
            classes = [(''rally'', [1, 2])]\<rparr>
   \<and> (\<exists>cfg'. edit_tag ''p'' 2 ''block''
         [''p'' \<mapsto> \<lparr>project_tags = [(1, ''serve''), (2, ''spike'')], max_tag_index = 2,
                     classes = [(''rally'', [1, 2])]\<rparr>]
        = (Inr (), write_project_config ''p'' cfg'
             [''p'' \<mapsto> \<lparr>project_tags = [(1, ''serve''), (2, ''spike'')], max_tag_index = 2,
                         classes = [(''rally'', [1, 2])]\<rparr>])
        \<and> dict_getitem (project_tags cfg') 2 = Inr ''block''
        \<and> dict_getitem (project_tags cfg') 1 = Inr ''serve''
        \<and> max_tag_index cfg' = 2
        \<and> classes cfg' = [(''rally'', [1, 2])])"
proof -
  let ?cfg = "\<lparr>project_tags = [(1, ''serve''), (2, ''spike'')], max_tag_index = 2,
               classes = [(''rally'', [1, 2])]\<rparr>"
  let ?st = "[''p'' \<mapsto> ?cfg]"
  have h: "load_project_config ?st ''p'' = Inr ?cfg"
    by (simp add: load_project_config_def)
  have g: "dict_getitem (project_tags ?cfg) 1 = Inr ''serve''"
    by (simp add: dict_getitem_def)
  from edit_tag_frame [OF h, of 2 "''block''"] obtain cfg' where
    "edit_tag ''p'' 2 ''block'' ?st = (Inr (), write_project_config ''p'' cfg' ?st)"
    "dict_getitem (project_tags cfg') 2 = Inr ''block''"
    "\<forall>k. k \<noteq> 2 \<longrightarrow> dict_getitem (project_tags cfg') k = dict_getitem (project_tags ?cfg) k"
    "max_tag_index cfg' = max_tag_index ?cfg"
    "classes cfg' = classes ?cfg"
    by blast
  with g h show ?thesis
    by auto
qed

text \<open>
  C10. Error atomicity of \<open>remove_tag\<close>. For a stored configuration in which \<open>tag_idx\<close>
  is not bound in \<open>project_tags\<close>, \<open>remove_tag\<close> raises KeyError at the deletion, before
  \<open>write_project_config\<close>, and the store is left exactly as it was.
\<close>

theorem remove_tag_missing:
  assumes "load_project_config st path = Inr cfg"
    and "tag_idx \<notin> set (keys (project_tags cfg))"
  shows "remove_tag_body cfg tag_idx = Inl KeyError
       \<and> remove_tag path tag_idx st = (Inl KeyError, st)"
proof -
  have "map_of (project_tags cfg) tag_idx = None"
    using assms(2) by (simp add: map_of_eq_None_keys)
  then have body: "remove_tag_body cfg tag_idx = Inl KeyError"
    by (simp add: remove_tag_body_def dict_delitem_def)
  with assms(1) show ?thesis
    by (simp add: remove_tag_def)
qed

theorem remove_tag_missing_witness:
  "load_project_config
      [''p'' \<mapsto> \<lparr>project_tags = [(1, ''serve'')], max_tag_index = 1,
                  classes = [(''rally'', [1])]\<rparr>] ''p''
     = Inr \<lparr>project_tags = [(1, ''serve'')], max_tag_index = 1, classes = [(''rally'', [1])]\<rparr>
   \<and> 7 \<notin> set (keys [(1::int, ''serve'')])
   \<and> remove_tag ''p'' 7
        [''p'' \<mapsto> \<lparr>project_tags = [(1, ''serve'')], max_tag_index = 1,
                    classes = [(''rally'', [1])]\<rparr>]
     = (Inl KeyError,
        [''p'' \<mapsto> \<lparr>project_tags = [(1, ''serve'')], max_tag_index = 1,
                    classes = [(''rally'', [1])]\<rparr>])"
proof -
  let ?cfg = "\<lparr>project_tags = [(1, ''serve'')], max_tag_index = 1, classes = [(''rally'', [1])]\<rparr>"
  let ?st = "[''p'' \<mapsto> ?cfg]"
  have h1: "load_project_config ?st ''p'' = Inr ?cfg"
    by (simp add: load_project_config_def)
  have h2: "7 \<notin> set (keys (project_tags ?cfg))"
    by (simp add: keys_def)
  from remove_tag_missing [OF h1 h2] h1 h2 show ?thesis
    by simp
qed

section \<open>Properties of the script\<close>

lemma bind_err_Inr: "bind_err r f = Inr y \<longleftrightarrow> (\<exists>x. r = Inr x \<and> f x = Inr y)"
  by (cases r) (simp_all add: bind_err_def)

lemma bind_err_simps: "bind_err (Inr x) f = f x" "bind_err (Inl e) f = Inl e"
  by (simp_all add: bind_err_def)

lemma bind_err_weak_cong: "r = r' \<Longrightarrow> bind_err r f = bind_err r' f"
  by simp

lemma parse_arguments_docopt:
  "parse_arguments (docopt cl) =
     Inr \<lparr>camera_id = py_or (option_value (given_camera_id cl)) (PyInt 0),
          path_in = py_or (option_value (given_path_in cl)) PyNone,
          path_out = py_or (option_value (given_path_out cl)) PyNone,
          custom_classifier = py_or (PyStr (given_custom_classifier cl)) PyNone,
          title = py_or (option_value (given_title cl)) PyNone,
          use_gpu = PyBool (given_use_gpu cl)\<rparr>"
  by (simp add: parse_arguments_def docopt_def dict_getitem_def bind_err_def)

lemma py_or_absent: "py_or (option_value None) d = d"
  by (simp add: py_or_def option_value_def)

text \<open>A run that reaches the Controller call passes it the parsed values.\<close>

lemma main_reaches_controller:
  assumes "parse_arguments args = Inr v" and "main env args = Inr ctl"
  shows "\<exists>net post_processors.
           ctl = PyObject ''Controller'' []
                   [(''neural_network'', net),
                    (''post_processors'', post_processors),
                    (''results_display'',
                       PyObject ''DisplayResults'' []
                         [(''title'', title v),
                          (''display_ops'', display_ops),
                          (''border_size'', PyInt 100)]),
                    (''callbacks'', PyList []),
                    (''camera_id'', camera_id v),
                    (''path_in'', path_in v),
                    (''path_out'', path_out v),
                    (''use_gpu'', use_gpu v)]"
  using assms(2) unfolding main_def assms(1) Let_def bind_err_Inr
  by auto

text \<open>
  With an empty \<open>--custom_classifier=\<close> the classifier directory is \<open>None\<close> (line 39) and
  the script raises before it constructs anything: no Controller is built.
\<close>

lemma main_without_classifier_directory:
  assumes "given_custom_classifier cl = []"
  shows "\<exists>e. main env (docopt cl) = Inl e"
proof (cases "load_weights env ''resources/backbone/strided_inflated_efficientnet.ckpt''")
  case (Inl e)
  then show ?thesis
    by (simp add: main_def parse_arguments_docopt bind_err_def)
next
  case (Inr checkpoint)
  with assms show ?thesis
    by (simp add: main_def parse_arguments_docopt bind_err_def py_or_def os_path_join_def)
qed

text \<open>With the ten position labels of the volleyball classifier every counter is built.\<close>

lemma postprocessor_volleyball:
  "\<exists>post_processors. postprocessor
     [(''forearm_passing_position_1'', 0), (''forearm_passing_position_2'', 1),
      (''overhead_passing_position_1'', 2), (''overhead_passing_position_2'', 3),
      (''pokey_position_1'', 4), (''pokey_position_2'', 5),
      (''one_arm_passing_position_1'', 6), (''one_arm_passing_position_2'', 7),
      (''bouncing_ball_position_1'', 8), (''bouncing_ball_position_2'', 9)] = Inr post_processors"
  by (simp add: postprocessor_def TwoPositionsRepCounter_def dict_getitem_def bind_err_def)

section \<open>Claims about the command line\<close>

text \<open>
  C8, as the specification states it, has the defaults of \<open>camera_id\<close>, \<open>path_in\<close>,
  \<open>path_out\<close> and \<open>title\<close> passed to the Controller. The Controller call has no \<open>title\<close>
  argument: in a run with no option given, where both checkpoints and the label file
  load, the keyword arguments of the Controller call are the eight below, and \<open>title\<close> is
  not among them.
\<close>

theorem title_not_passed_to_controller_counterexample:
  "controller_kwarg_names
     (main \<lparr>weight_files =
         [(''resources/backbone/strided_inflated_efficientnet.ckpt'', [(''layer1'', 1::int)]),
          (''clf/classifier.checkpoint'', [(''head'', 2)])],
       label_files =
         [(''clf/label2int.json'',
           [(''forearm_passing_position_1'', 0), (''forearm_passing_position_2'', 1),
            (''overhead_passing_position_1'', 2), (''overhead_passing_position_2'', 3),
            (''pokey_position_1'', 4), (''pokey_position_2'', 5),
            (''one_arm_passing_position_1'', 6), (''one_arm_passing_position_2'', 7),
            (''bouncing_ball_position_1'', 8), (''bouncing_ball_position_2'', 9)])],
       backbone_feature_dim = 1280\<rparr>
        (docopt \<lparr>given_custom_classifier = ''clf'', given_camera_id = None, given_path_in = None,
       given_path_out = None, given_title = None, given_use_gpu = False\<rparr>))
   = Inr [''neural_network'', ''post_processors'', ''results_display'', ''callbacks'',
          ''camera_id'', ''path_in'', ''path_out'', ''use_gpu'']
   \<and> controller_kwarg
     (main \<lparr>weight_files =
         [(''resources/backbone/strided_inflated_efficientnet.ckpt'', [(''layer1'', 1::int)]),
          (''clf/classifier.checkpoint'', [(''head'', 2)])],
       label_files =
         [(''clf/label2int.json'',
           [(''forearm_passing_position_1'', 0), (''forearm_passing_position_2'', 1),
            (''overhead_passing_position_1'', 2), (''overhead_passing_position_2'', 3),
            (''pokey_position_1'', 4), (''pokey_position_2'', 5),
            (''one_arm_passing_position_1'', 6), (''one_arm_passing_position_2'', 7),
            (''bouncing_ball_position_1'', 8), (''bouncing_ball_position_2'', 9)])],
       backbone_feature_dim = 1280\<rparr>
        (docopt \<lparr>given_custom_classifier = ''clf'', given_camera_id = None, given_path_in = None,
       given_path_out = None, given_title = None, given_use_gpu = False\<rparr>)) ''title''
   = Inr None"
proof -
  from postprocessor_volleyball obtain post_processors where
    "postprocessor
       [(''forearm_passing_position_1'', 0), (''forearm_passing_position_2'', 1),
         (''overhead_passing_position_1'', 2), (''overhead_passing_position_2'', 3),
         (''pokey_position_1'', 4), (''pokey_position_2'', 5),
         (''one_arm_passing_position_1'', 6), (''one_arm_passing_position_2'', 7),
         (''bouncing_ball_position_1'', 8), (''bouncing_ball_position_2'', 9)] = Inr post_processors"
    by (elim exE)
  then show ?thesis
    by (simp add: main_def parse_arguments_docopt py_or_def option_value_def bind_err_simps
        load_weights_def os_path_join_def finetuned_order_def keys_def load_labels_def
        controller_kwarg_names_def controller_kwarg_def kwarg_names_def kwarg_def Let_def
        cong: bind_err_weak_cong)
qed

text \<open>
  C8, amended. For every invocation the options are read without error, and when
  \<open>--camera_id\<close> is not given \<open>camera_id\<close> is 0; when \<open>--path_in\<close> is not given \<open>path_in\<close>
  is None; when \<open>--path_out\<close> is not given \<open>path_out\<close> is None; when \<open>--title\<close> is not given
  \<open>title\<close> is None. In every run that reaches the Controller call, \<open>camera_id\<close>, \<open>path_in\<close>
  and \<open>path_out\<close> are passed unchanged to the Controller, and \<open>title\<close> is passed unchanged
  to \<open>DisplayResults\<close>, the display the Controller receives as \<open>results_display\<close>; the
  Controller itself takes no title.
\<close>

theorem cli_defaults:
  "\<exists>v. parse_arguments (docopt cl) = Inr v
     \<and> (given_camera_id cl = None \<longrightarrow> camera_id v = PyInt 0)
     \<and> (given_path_in cl = None \<longrightarrow> path_in v = PyNone)
     \<and> (given_path_out cl = None \<longrightarrow> path_out v = PyNone)
     \<and> (given_title cl = None \<longrightarrow> title v = PyNone)
     \<and> (\<forall>ctl. main env (docopt cl) = Inr ctl \<longrightarrow>
            kwarg ctl ''camera_id'' = Some (camera_id v)
          \<and> kwarg ctl ''path_in'' = Some (path_in v)
          \<and> kwarg ctl ''path_out'' = Some (path_out v)
          \<and> kwarg ctl ''title'' = None
          \<and> (\<exists>display. kwarg ctl ''results_display'' = Some display
                \<and> kwarg display ''title'' = Some (title v)))"
proof (intro exI conjI impI allI)
  show "parse_arguments (docopt cl) = Inr
          \<lparr>camera_id = py_or (option_value (given_camera_id cl)) (PyInt 0),
           path_in = py_or (option_value (given_path_in cl)) PyNone,
           path_out = py_or (option_value (given_path_out cl)) PyNone,
           custom_classifier = py_or (PyStr (given_custom_classifier cl)) PyNone,
           title = py_or (option_value (given_title cl)) PyNone,
           use_gpu = PyBool (given_use_gpu cl)\<rparr>"
    (is "_ = Inr ?v")
    by (rule parse_arguments_docopt)
  show "camera_id ?v = PyInt 0" if "given_camera_id cl = None"
    using that by (simp add: py_or_absent)
  show "path_in ?v = PyNone" if "given_path_in cl = None"
    using that by (simp add: py_or_absent)
  show "path_out ?v = PyNone" if "given_path_out cl = None"
    using that by (simp add: py_or_absent)
  show "title ?v = PyNone" if "given_title cl = None"
    using that by (simp add: py_or_absent)
  fix ctl
  assume run: "main env (docopt cl) = Inr ctl"
  from main_reaches_controller [OF parse_arguments_docopt run]
  obtain net post_processors where
    ctl: "ctl = PyObject ''Controller'' []
                   [(''neural_network'', net),
                    (''post_processors'', post_processors),
                    (''results_display'',
                       PyObject ''DisplayResults'' []
                         [(''title'', title ?v),
                          (''display_ops'', display_ops),
                          (''border_size'', PyInt 100)]),
                    (''callbacks'', PyList []),
                    (''camera_id'', camera_id ?v),
                    (''path_in'', path_in ?v),
                    (''path_out'', path_out ?v),
                    (''use_gpu'', use_gpu ?v)]"
    by blast
  show "kwarg ctl ''camera_id'' = Some (camera_id ?v)"
    by (simp add: ctl kwarg_def)
  show "kwarg ctl ''path_in'' = Some (path_in ?v)"
    by (simp add: ctl kwarg_def)
  show "kwarg ctl ''path_out'' = Some (path_out ?v)"
    by (simp add: ctl kwarg_def)
  show "kwarg ctl ''title'' = None"
    by (simp add: ctl kwarg_def)
  show "kwarg ctl ''results_display'' =
          Some (PyObject ''DisplayResults'' []
                  [(''title'', title ?v),
                   (''display_ops'', display_ops),
                   (''border_size'', PyInt 100)])"
    by (simp add: ctl kwarg_def)
  show "kwarg (PyObject ''DisplayResults'' []
                  [(''title'', title ?v),
                   (''display_ops'', display_ops),
                   (''border_size'', PyInt 100)]) ''title'' = Some (title ?v)"
    by (simp add: kwarg_def)
qed

theorem cli_defaults_witness:
  "\<exists>ctl display.
      main \<lparr>weight_files =
         [(''resources/backbone/strided_inflated_efficientnet.ckpt'', [(''layer1'', 1::int)]),
          (''clf/classifier.checkpoint'', [(''head'', 2)])],
       label_files =
         [(''clf/label2int.json'',
           [(''forearm_passing_position_1'', 0), (''forearm_passing_position_2'', 1),
            (''overhead_passing_position_1'', 2), (''overhead_passing_position_2'', 3),
            (''pokey_position_1'', 4), (''pokey_position_2'', 5),
            (''one_arm_passing_position_1'', 6), (''one_arm_passing_position_2'', 7),
            (''bouncing_ball_position_1'', 8), (''bouncing_ball_position_2'', 9)])],
       backbone_feature_dim = 1280\<rparr>
        (docopt \<lparr>given_custom_classifier = ''clf'', given_camera_id = None, given_path_in = None,
       given_path_out = None, given_title = None, given_use_gpu = False\<rparr>) = Inr ctl
    \<and> kwarg ctl ''camera_id'' = Some (PyInt 0)
    \<and> kwarg ctl ''path_in'' = Some PyNone
    \<and> kwarg ctl ''path_out'' = Some PyNone
    \<and> kwarg ctl ''results_display'' = Some display
    \<and> kwarg display ''title'' = Some PyNone"
proof -
  let ?env = "\<lparr>weight_files =
         [(''resources/backbone/strided_inflated_efficientnet.ckpt'', [(''layer1'', 1::int)]),
          (''clf/classifier.checkpoint'', [(''head'', 2)])],
       label_files =
         [(''clf/label2int.json'',
           [(''forearm_passing_position_1'', 0), (''forearm_passing_position_2'', 1),
            (''overhead_passing_position_1'', 2), (''overhead_passing_position_2'', 3),
            (''pokey_position_1'', 4), (''pokey_position_2'', 5),
            (''one_arm_passing_position_1'', 6), (''one_arm_passing_position_2'', 7),
            (''bouncing_ball_position_1'', 8), (''bouncing_ball_position_2'', 9)])],
       backbone_feature_dim = 1280\<rparr>"
  let ?cl = "\<lparr>given_custom_classifier = ''clf'', given_camera_id = None, given_path_in = None,
       given_path_out = None, given_title = None, given_use_gpu = False\<rparr>"
  from postprocessor_volleyball obtain post_processors where
    "postprocessor
       [(''forearm_passing_position_1'', 0), (''forearm_passing_position_2'', 1),
         (''overhead_passing_position_1'', 2), (''overhead_passing_position_2'', 3),
         (''pokey_position_1'', 4), (''pokey_position_2'', 5),
         (''one_arm_passing_position_1'', 6), (''one_arm_passing_position_2'', 7),
         (''bouncing_ball_position_1'', 8), (''bouncing_ball_position_2'', 9)] = Inr post_processors"
    by (elim exE)
  then have "\<exists>ctl. main ?env (docopt ?cl) = Inr ctl"
    by (simp add: main_def parse_arguments_docopt py_or_def option_value_def bind_err_simps
        load_weights_def os_path_join_def finetuned_order_def keys_def load_labels_def
        Let_def cong: bind_err_weak_cong)
  then obtain ctl where run: "main ?env (docopt ?cl) = Inr ctl"
    by blast
  from cli_defaults [of ?cl ?env] obtain v where
    "parse_arguments (docopt ?cl) = Inr v"
    "given_camera_id ?cl = None \<longrightarrow> camera_id v = PyInt 0"
    "given_path_in ?cl = None \<longrightarrow> path_in v = PyNone"
    "given_path_out ?cl = None \<longrightarrow> path_out v = PyNone"
    "given_title ?cl = None \<longrightarrow> title v = PyNone"
    "\<forall>ctl. main ?env (docopt ?cl) = Inr ctl \<longrightarrow>
            kwarg ctl ''camera_id'' = Some (camera_id v)
          \<and> kwarg ctl ''path_in'' = Some (path_in v)
          \<and> kwarg ctl ''path_out'' = Some (path_out v)
          \<and> kwarg ctl ''title'' = None
          \<and> (\<exists>display. kwarg ctl ''results_display'' = Some display
                \<and> kwarg display ''title'' = Some (title v))"
    by (elim exE conjE) (rule that)
  then have v: "camera_id v = PyInt 0" "path_in v = PyNone" "path_out v = PyNone"
      "title v = PyNone"
    and passed: "kwarg ctl ''camera_id'' = Some (camera_id v)"
      "kwarg ctl ''path_in'' = Some (path_in v)"
      "kwarg ctl ''path_out'' = Some (path_out v)"
      "\<exists>display. kwarg ctl ''results_display'' = Some display
                \<and> kwarg display ''title'' = Some (title v)"
    using run by simp_all
  from passed(4) obtain display where
    "kwarg ctl ''results_display'' = Some display" "kwarg display ''title'' = Some (title v)"
    by (elim exE conjE)
  with run v passed(1-3) show ?thesis
    by (intro exI [of _ ctl] exI [of _ display]) simp
qed

end
